theory Spec2Isabelle
  imports Main "HOL-Library.Char_ord" "HOL-Library.List_Lexorder"
    "HOL-Library.Product_Lexorder" "HOL-Library.AList" "HOL-Library.Multiset"
begin

section \<open>Values, errors and dictionaries\<close>

text \<open>
  The tools are Python scripts. A Python string is modelled as a \<open>string\<close> whose
  characters are the code points below 256; an exception is a value of \<open>error\<close> and a
  function that may raise returns \<open>error + 'a\<close>. A dictionary is an association
  list in insertion order (\<open>map_of\<close> reads a key, \<open>AList.update\<close> stores one).

  A value that is not known to be a string is a \<open>pyval\<close>. The values come from
  SQLite columns and JSON documents: \<open>None\<close>, a string, a \<open>bytes\<close> object (a BLOB
  column, its bytes written as characters), or another value \<open>PyOther\<close>: a number, a
  boolean, a list or a dictionary. Of these only strings and \<open>bytes\<close> have a method
  \<open>split\<close>.
\<close>

datatype error =
  ValueError | TypeError | IndexError | KeyError | AssertionError
  | ListLengthMismatchError | NamesMismatchError | DuplicatesError

datatype 'v pyval = PyNone | PyStr string | PyBytes string | PyOther 'v

type_synonym ('k, 'v) dict = "('k \<times> 'v) list"

text \<open>\<open>row[i]\<close> for a non-negative index: IndexError out of range.\<close>

definition item :: "'a list \<Rightarrow> nat \<Rightarrow> error + 'a" where
  "item xs i = (if i < length xs then Inr (xs ! i) else Inl IndexError)"

text \<open>\<open>d[k]\<close>: KeyError when the key is missing; \<open>d.get(k)\<close>: None then.\<close>

definition getitem :: "('k, 'v) dict \<Rightarrow> 'k \<Rightarrow> error + 'v" where
  "getitem d k = (case map_of d k of None \<Rightarrow> Inl KeyError | Some v \<Rightarrow> Inr v)"

definition dict_get :: "('k, 'v pyval) dict \<Rightarrow> 'k \<Rightarrow> 'v pyval" where
  "dict_get d k = (case map_of d k of None \<Rightarrow> PyNone | Some v \<Rightarrow> v)"

section \<open>utils.py: MAC formatting\<close>

subsection \<open>Python's \<open>int(x, 16)\<close>, \<open>str.split\<close>, \<open>str.join\<close> and the format \<open>02X\<close>\<close>

text \<open>
  \<open>int(x, 16)\<close> skips white space on both sides, reads an optional sign, an optional
  prefix \<open>0x\<close> or \<open>0X\<close> (with one underscore allowed after it), and then hexadecimal
  digits in which single underscores may separate digits. Anything else is a ValueError,
  here \<open>None\<close>.
\<close>

definition is_space :: "char \<Rightarrow> bool" where
  "is_space c \<longleftrightarrow> c \<in> set [CHR 0x09, CHR 0x0A, CHR 0x0B, CHR 0x0C, CHR 0x0D, CHR 0x20,
     CHR 0x85, CHR 0xA0]"

definition digit_value :: "char \<Rightarrow> nat option" where
  "digit_value c =
     (let n = (of_char c :: nat) in
      if 48 \<le> n \<and> n \<le> 57 then Some (n - 48)
      else if 97 \<le> n \<and> n \<le> 102 then Some (n - 87)
      else if 65 \<le> n \<and> n \<le> 70 then Some (n - 55)
      else None)"

text \<open>
  The scan of digits and underscores: \<open>prev\<close> is the character read before, \<open>digits\<close>
  counts the digits, \<open>acc\<close> is the value so far. It stops at the first character that
  is neither, and fails on a double underscore.
\<close>

fun scan_digits :: "char \<Rightarrow> nat \<Rightarrow> nat \<Rightarrow> string \<Rightarrow> (nat \<times> nat \<times> char \<times> string) option" where
  "scan_digits prev digits acc [] = Some (acc, digits, prev, [])"
| "scan_digits prev digits acc (c # cs) =
     (if c = CHR ''_'' then
        (if prev = CHR ''_'' then None else scan_digits c digits acc cs)
      else
        (case digit_value c of
           Some d \<Rightarrow> scan_digits c (Suc digits) (acc * 16 + d) cs
         | None \<Rightarrow> Some (acc, digits, prev, c # cs)))"

definition long_from_string_base :: "string \<Rightarrow> (nat \<times> string) option" where
  "long_from_string_base s =
     (if s \<noteq> [] \<and> hd s = CHR ''_'' then None
      else
        (case scan_digits (CHR 0x00) 0 0 s of
           None \<Rightarrow> None
         | Some (acc, digits, prev, rest) \<Rightarrow>
             if prev = CHR ''_'' then None
             else if digits = 0 then None
             else Some (acc, rest)))"

definition strip_sign :: "string \<Rightarrow> bool \<times> string" where
  "strip_sign s =
     (case s of
        [] \<Rightarrow> (False, s)
      | c # r \<Rightarrow>
          if c = CHR ''+'' then (False, r)
          else if c = CHR ''-'' then (True, r)
          else (False, s))"

definition strip_prefix :: "string \<Rightarrow> string" where
  "strip_prefix s =
     (case s of
        a # b # r \<Rightarrow>
          if a = CHR ''0'' \<and> (b = CHR ''x'' \<or> b = CHR ''X'') then
            (case r of
               [] \<Rightarrow> r
             | u # r' \<Rightarrow> if u = CHR ''_'' then r' else r)
          else s
      | _ \<Rightarrow> s)"

definition int16 :: "string \<Rightarrow> int option" where
  "int16 s =
     (let (neg, s2) = strip_sign (dropWhile is_space s) in
      case long_from_string_base (strip_prefix s2) of
        None \<Rightarrow> None
      | Some (v, rest) \<Rightarrow>
          if dropWhile is_space rest = [] then Some (if neg then - int v else int v)
          else None)"

text \<open>\<open>mac.split(":")\<close>: always at least one segment.\<close>

fun split_colon :: "string \<Rightarrow> string list" where
  "split_colon [] = [[]]"
| "split_colon (c # cs) =
     (if c = CHR '':'' then [] # split_colon cs
      else (c # hd (split_colon cs)) # tl (split_colon cs))"

fun join_colon :: "string list \<Rightarrow> string" where
  "join_colon [] = []"
| "join_colon [w] = w"
| "join_colon (w # v # ws) = w @ CHR '':'' # join_colon (v # ws)"

definition hex_digit :: "nat \<Rightarrow> char" where
  "hex_digit d = (if d < 10 then char_of (48 + d) else char_of (55 + d))"

function to_hex :: "nat \<Rightarrow> string" where
  "to_hex n = (if n < 16 then [hex_digit n] else to_hex (n div 16) @ [hex_digit (n mod 16)])"
  by pat_completeness auto
termination
  by (relation "measure (\<lambda>n. n)") auto

declare to_hex.simps [simp del]

text \<open>
  \<open>f"{v:02X}"\<close>: upper-case hexadecimal, padded with zeros to two characters; the sign of
  a negative value counts for the width, so nothing is padded there.
\<close>

definition format_02X :: "int \<Rightarrow> string" where
  "format_02X v =
     (if v < 0 then CHR ''-'' # to_hex (nat (- v))
      else (let s = to_hex (nat v) in replicate (2 - length s) (CHR ''0'') @ s))"

subsection \<open>\<open>formatted_mac\<close>, \<open>is_tess_mac\<close>, \<open>is_mac\<close>\<close>

text \<open>
  The generator inside \<open>join\<close> raises at the first segment that \<open>int\<close> rejects.
\<close>

fun int16_all :: "string list \<Rightarrow> int list option" where
  "int16_all [] = Some []"
| "int16_all (x # xs) =
     (case int16 x of
        None \<Rightarrow> None
      | Some v \<Rightarrow> (case int16_all xs of None \<Rightarrow> None | Some vs \<Rightarrow> Some (v # vs)))"

text \<open>
  Only ValueError and AttributeError are caught and raised again as ValueError.
  \<open>None\<close> and the values of \<open>PyOther\<close> have no \<open>split\<close>, which is an
  AttributeError. A \<open>bytes\<close> object has one, but \<open>mac.split(":")\<close> with a string
  separator is a TypeError there, which is not caught.
\<close>

fun formatted_mac :: "'v pyval \<Rightarrow> error + string" where
  "formatted_mac (PyStr mac) =
     (case int16_all (split_colon mac) of
        None \<Rightarrow> Inl ValueError
      | Some vs \<Rightarrow> Inr (join_colon (map format_02X vs)))"
| "formatted_mac (PyBytes mac) = Inl TypeError"
| "formatted_mac PyNone = Inl ValueError"
| "formatted_mac (PyOther v) = Inl ValueError"

definition is_tess_mac :: "string \<Rightarrow> bool" where
  "is_tess_mac mac =
     (let mac_list = split_colon mac in
      list_all (\<lambda>x. int16 x \<noteq> None) mac_list \<and> length mac_list = 6)"

definition is_mac :: "string \<Rightarrow> bool" where
  "is_mac mac \<longleftrightarrow> is_tess_mac mac \<and> length mac = 17"

section \<open>dbutils.py: reconciliation passes\<close>

definition common_A_B_items :: "('k, 'a) dict \<Rightarrow> ('k, 'b) dict \<Rightarrow> 'k set" where
  "common_A_B_items map_A map_B = set (map fst map_A) \<inter> set (map fst map_B)"

definition in_A_not_in_B :: "('k, 'a) dict \<Rightarrow> ('k, 'b) dict \<Rightarrow> 'k set" where
  "in_A_not_in_B map_A map_B = set (map fst map_A) - set (map fst map_B)"

text \<open>
  \<open>group_by\<close> fills a \<open>defaultdict(list)\<close>: \<open>result[row[key]].append(row)\<close> creates
  the group of a new key at the end of the dictionary and extends the group of a known
  key in place. A row that is \<open>None\<close> is logged and skipped; a row without the key
  raises KeyError.
\<close>

definition append_to :: "('g, 'r list) dict \<Rightarrow> 'g \<Rightarrow> 'r \<Rightarrow> ('g, 'r list) dict" where
  "append_to result g row =
     AList.update g ((case map_of result g of None \<Rightarrow> [] | Some rows \<Rightarrow> rows) @ [row]) result"

fun group_by_loop ::
  "('k, 'v) dict option list \<Rightarrow> 'k \<Rightarrow> ('v, ('k, 'v) dict list) dict
     \<Rightarrow> error + ('v, ('k, 'v) dict list) dict" where
  "group_by_loop [] key result = Inr result"
| "group_by_loop (None # iterable) key result = group_by_loop iterable key result"
| "group_by_loop (Some row # iterable) key result =
     (case getitem row key of
        Inl e \<Rightarrow> Inl e
      | Inr g \<Rightarrow> group_by_loop iterable key (append_to result g row))"

definition group_by ::
  "('k, 'v) dict option list \<Rightarrow> 'k \<Rightarrow> error + ('v, ('k, 'v) dict list) dict" where
  "group_by iterable key = group_by_loop iterable key []"

definition group_by_mac ::
  "(string, 'v) dict option list \<Rightarrow> error + ('v, (string, 'v) dict list) dict" where
  "group_by_mac iterable = group_by iterable ''mac''"

section \<open>zptess.py and tessdb.py: remapping rows\<close>

text \<open>
  A row fetched by a cursor is a tuple of column values, here a list read with
  \<open>item\<close>. In zptess.py the \<open>try\<close> block catches every exception, in tessdb.py only
  ValueError, so that an IndexError of \<open>row[1]\<close> and a TypeError of
  \<open>formatted_mac\<close> escape there. tessdb.py calls \<open>formatted_mac(row[1])\<close> a second
  time after the \<open>try\<close> block, with the same result.
\<close>

definition zptess_tessdb_remap_info ::
  "'v pyval list \<Rightarrow> error + (string, 'v pyval) dict option" where
  "zptess_tessdb_remap_info row =
     (case item row 0 of
        Inl e \<Rightarrow> Inr None
      | Inr m \<Rightarrow>
     (case formatted_mac m of
        Inl e \<Rightarrow> Inr None
      | Inr mac \<Rightarrow>
     (case item row 1 of Inl e \<Rightarrow> Inl e | Inr r1 \<Rightarrow>
     (case item row 2 of Inl e \<Rightarrow> Inl e | Inr r2 \<Rightarrow>
     (case item row 3 of Inl e \<Rightarrow> Inl e | Inr r3 \<Rightarrow>
     (case item row 4 of Inl e \<Rightarrow> Inl e | Inr r4 \<Rightarrow>
        Inr (Some [(''mac'', PyStr mac), (''tessdb_state'', r1), (''tessdb_zp'', r2),
                   (''tessdb_date'', r3), (''tessdb_registered'', r4)])))))))"

definition zptess_remap_info ::
  "'v pyval list \<Rightarrow> error + (string, 'v pyval) dict option" where
  "zptess_remap_info row =
     (case item row 0 of
        Inl e \<Rightarrow> Inr None
      | Inr m \<Rightarrow>
     (case formatted_mac m of
        Inl e \<Rightarrow> Inr None
      | Inr mac \<Rightarrow>
     (case item row 1 of Inl e \<Rightarrow> Inl e | Inr r1 \<Rightarrow>
     (case item row 2 of Inl e \<Rightarrow> Inl e | Inr r2 \<Rightarrow>
     (case item row 3 of Inl e \<Rightarrow> Inl e | Inr r3 \<Rightarrow>
     (case item row 4 of Inl e \<Rightarrow> Inl e | Inr r4 \<Rightarrow>
        Inr (Some [(''mac'', PyStr mac), (''zptess_zp'', r1), (''zptess_date'', r2),
                   (''zptess_name'', r3), (''zptess_method'', r4)])))))))"

definition tessdb_remap_info ::
  "'v pyval list \<Rightarrow> error + (string, 'v pyval) dict option" where
  "tessdb_remap_info row =
     (case item row 1 of
        Inl e \<Rightarrow> Inl e
      | Inr m \<Rightarrow>
     (case formatted_mac m of
        Inl e \<Rightarrow> (if e = ValueError then Inr None else Inl e)
      | Inr mac \<Rightarrow>
     (case item row 2 of Inl e \<Rightarrow> Inl e | Inr r2 \<Rightarrow>
     (case item row 3 of Inl e \<Rightarrow> Inl e | Inr r3 \<Rightarrow>
     (case item row 0 of Inl e \<Rightarrow> Inl e | Inr r0 \<Rightarrow>
        Inr (Some [(''mac'', PyStr mac), (''zero_point'', r2), (''filter'', r3),
                   (''name'', r0)]))))))"

text \<open>\<open>list(map(f, rows))\<close>: the first exception ends the whole call.\<close>

fun list_map :: "('a \<Rightarrow> error + 'b) \<Rightarrow> 'a list \<Rightarrow> error + 'b list" where
  "list_map f [] = Inr []"
| "list_map f (x # xs) =
     (case f x of
        Inl e \<Rightarrow> Inl e
      | Inr y \<Rightarrow> (case list_map f xs of Inl e \<Rightarrow> Inl e | Inr ys \<Rightarrow> Inr (y # ys)))"

section \<open>mongodb.py: correlating the two API answers, looking rows up\<close>

text \<open>
  \<open>mongo_get_all\<close> is modelled on the two lists that the HTTP requests return. The
  loop over \<open>zip(names_list, details_list)\<close> stores the MAC into each details entry
  and what is returned is \<open>details_list\<close> itself.
\<close>

fun mongo_get_all_loop ::
  "(string, 'v pyval) dict list \<Rightarrow> (string, 'v pyval) dict list
     \<Rightarrow> error + (string, 'v pyval) dict list" where
  "mongo_get_all_loop [] details_list = Inr details_list"
| "mongo_get_all_loop (n # names_list) [] = Inr []"
| "mongo_get_all_loop (n # names_list) (d # details_list) =
     (case getitem n ''name'' of
        Inl e \<Rightarrow> Inl e
      | Inr name0 \<Rightarrow>
     (case getitem d ''name'' of
        Inl e \<Rightarrow> Inl e
      | Inr name1 \<Rightarrow>
          if name0 \<noteq> name1 then Inl NamesMismatchError
          else
            (case mongo_get_all_loop names_list details_list of
               Inl e \<Rightarrow> Inl e
             | Inr rest \<Rightarrow> Inr (AList.update ''mac'' (dict_get n ''mac'') d # rest))))"

definition mongo_get_all ::
  "(string, 'v pyval) dict list \<Rightarrow> (string, 'v pyval) dict list
     \<Rightarrow> error + (string, 'v pyval) dict list" where
  "mongo_get_all names_list details_list =
     (if length names_list \<noteq> length details_list then Inl ListLengthMismatchError
      else mongo_get_all_loop names_list details_list)"




section \<open>tessdb.py: the history of a photometer\<close>

text \<open>
  The table \<open>name_to_mac_t\<close> holds one validity record per row, in row order; its
  columns are text and time stamps compare as text. A query is a function of the table.
  \<open>ORDER BY\<close> is a stable sort of the selected rows.
\<close>

record name_to_mac =
  db_name :: string
  db_mac_address :: string
  db_valid_since :: string
  db_valid_until :: string
  db_valid_state :: string

type_synonym name_to_mac_t = "name_to_mac list"

text \<open>
  A fetched history row is the list \<open>[c0, c1, valid_since, valid_until, '+',
  valid_state, days]\<close>: items 2, 3, 4 and 5 are read and item 4 is written. The last
  item, \<open>julianday(valid_until) - julianday(valid_since)\<close>, is a floating-point number
  that is only carried along and is left out here.
\<close>

record history_row =
  item0 :: string
  item1 :: string
  item2 :: string
  item3 :: string
  item4 :: string
  item5 :: string

definition select_name_first :: "name_to_mac \<Rightarrow> history_row" where
  "select_name_first r =
     \<lparr>item0 = db_name r, item1 = db_mac_address r, item2 = db_valid_since r,
      item3 = db_valid_until r, item4 = ''+'', item5 = db_valid_state r\<rparr>"

definition select_mac_first :: "name_to_mac \<Rightarrow> history_row" where
  "select_mac_first r =
     \<lparr>item0 = db_mac_address r, item1 = db_name r, item2 = db_valid_since r,
      item3 = db_valid_until r, item4 = ''+'', item5 = db_valid_state r\<rparr>"

definition name_mac_current_history_sql ::
  "string option \<Rightarrow> string option \<Rightarrow> string option \<Rightarrow> name_to_mac_t \<Rightarrow> history_row list" where
  "name_mac_current_history_sql name param_name param_mac connection =
     (if name \<noteq> None then
        map select_name_first
          (sort_key db_valid_since (filter (\<lambda>r. Some (db_name r) = param_name) connection))
      else
        map select_mac_first
          (sort_key db_valid_since (filter (\<lambda>r. Some (db_mac_address r) = param_mac) connection)))"

definition name_mac_previous_related_history_sql ::
  "string option \<Rightarrow> string \<Rightarrow> name_to_mac_t \<Rightarrow> history_row list" where
  "name_mac_previous_related_history_sql name tstamp connection =
     (if name \<noteq> None then
        map select_name_first
          (sort_key db_valid_since (filter (\<lambda>r. db_valid_until r = tstamp) connection))
      else
        map select_mac_first
          (sort_key db_valid_since (filter (\<lambda>r. db_valid_until r = tstamp) connection)))"

definition name_mac_next_related_history_sql ::
  "string option \<Rightarrow> string \<Rightarrow> name_to_mac_t \<Rightarrow> history_row list" where
  "name_mac_next_related_history_sql name tstamp connection =
     (if name \<noteq> None then
        map select_name_first
          (sort_key db_valid_since (filter (\<lambda>r. db_valid_since r = tstamp) connection))
      else
        map select_mac_first
          (sort_key db_valid_since (filter (\<lambda>r. db_valid_since r = tstamp) connection)))"

text \<open>
  The two loops that chase adjacent records have no exit but an empty or an ambiguous
  answer, so a run that never leaves the loop is the value \<open>None\<close>. The last component
  counts the queries executed; the source does not return it.
\<close>

partial_function (option) previous_related_loop ::
  "name_to_mac_t \<Rightarrow> string option \<Rightarrow> string \<Rightarrow> history_row list \<Rightarrow> nat
     \<Rightarrow> (history_row list \<times> bool \<times> nat) option" where
  "previous_related_loop connection name tstamp history queries =
     (let fragment = name_mac_previous_related_history_sql name tstamp connection;
          L = length fragment
      in if L = 0 then Some (history, False, Suc queries)
         else if L > 1 then Some (history @ fragment, True, Suc queries)
         else previous_related_loop connection name (item2 (fragment ! 0))
                (history @ fragment) (Suc queries))"

definition name_mac_previous_related_history ::
  "name_to_mac_t \<Rightarrow> string \<Rightarrow> string option \<Rightarrow> string option
     \<Rightarrow> (history_row list \<times> bool) option" where
  "name_mac_previous_related_history connection start_tstamp name mac =
     (case previous_related_loop connection name start_tstamp [] 0 of
        None \<Rightarrow> None
      | Some (history, complicated, queries) \<Rightarrow> Some (rev history, complicated))"

partial_function (option) next_related_loop ::
  "name_to_mac_t \<Rightarrow> string option \<Rightarrow> string \<Rightarrow> history_row list \<Rightarrow> nat
     \<Rightarrow> (history_row list \<times> bool \<times> nat) option" where
  "next_related_loop connection name tstamp history queries =
     (let fragment = name_mac_next_related_history_sql name tstamp connection;
          L = length fragment
      in if L = 0 then Some (history, False, Suc queries)
         else if L > 1 then Some (history @ fragment, True, Suc queries)
         else next_related_loop connection name (item3 (fragment ! 0))
                (history @ fragment) (Suc queries))"

definition name_mac_next_related_history ::
  "name_to_mac_t \<Rightarrow> string \<Rightarrow> string option \<Rightarrow> string option
     \<Rightarrow> (history_row list \<times> bool) option" where
  "name_mac_next_related_history connection end_tstamp name mac =
     (case next_related_loop connection name end_tstamp [] 0 of
        None \<Rightarrow> None
      | Some (history, complicated, queries) \<Rightarrow> Some (history, complicated))"

text \<open>
  The loop \<open>for i in range(len(history) - 1)\<close> of \<open>name_mac_current_history\<close>, which
  writes the flag of row \<open>i\<close> in place.
\<close>

function breaks_loop ::
  "nat \<Rightarrow> history_row list \<Rightarrow> string list \<Rightarrow> string list
     \<Rightarrow> history_row list \<times> string list \<times> string list" where
  "breaks_loop i history break_end_tstamps break_start_tstamps =
     (if Suc i < length history then
        (if item3 (history ! i) \<noteq> item2 (history ! Suc i) then
           breaks_loop (Suc i) (history[i := (history ! i)\<lparr>item4 := ''-''\<rparr>])
             (break_end_tstamps @ [item3 (history ! i)])
             (break_start_tstamps @ [item2 (history ! Suc i)])
         else breaks_loop (Suc i) history break_end_tstamps break_start_tstamps)
      else (history, break_end_tstamps, break_start_tstamps))"
  by pat_completeness auto
termination
  by (relation "measure (\<lambda>(i, history, b, c). length history - i)") auto

declare breaks_loop.simps [simp del]

text \<open>\<open>history[-1]\<close> of an empty list is an IndexError.\<close>

definition name_mac_current_history ::
  "name_to_mac_t \<Rightarrow> string option \<Rightarrow> string option
     \<Rightarrow> error + (history_row list \<times> string list \<times> string list \<times> bool)" where
  "name_mac_current_history connection name mac =
     (if \<not> (name \<noteq> None \<or> mac \<noteq> None) then Inl AssertionError
      else
        (case breaks_loop 0 (name_mac_current_history_sql name name mac connection) [] [] of
           (history, break_end_tstamps, break_start_tstamps) \<Rightarrow>
             if history = [] then Inl IndexError
             else Inr (history, break_end_tstamps, break_start_tstamps,
                       item5 (last history) = ''Expired'')))"

section \<open>tessdb.py: classifying photometers\<close>

definition row_dict :: "name_to_mac \<Rightarrow> (string, string) dict" where
  "row_dict r =
     [(''name'', db_name r), (''mac'', db_mac_address r), (''valid_since'', db_valid_since r),
      (''valid_until'', db_valid_until r), (''valid_state'', db_valid_state r)]"

text \<open>
  \<open>photometers_not_easy\<close>: the rows whose MAC address belongs to a name that has more
  than one row, or has more than one row itself, ordered by name and \<open>valid_since\<close>.
\<close>

definition photometers_not_easy :: "name_to_mac_t \<Rightarrow> (string, string) dict list" where
  "photometers_not_easy connection =
     (let names = [db_name r. r \<leftarrow> connection,
                    length (filter (\<lambda>x. db_name x = db_name r) connection) > 1];
          macs = [db_mac_address r. r \<leftarrow> connection, db_name r \<in> set names]
                 @ [db_mac_address r. r \<leftarrow> connection,
                      length (filter (\<lambda>x. db_mac_address x = db_mac_address r) connection) > 1]
      in map row_dict
           (sort_key (\<lambda>r. (db_name r, db_valid_since r))
              (filter (\<lambda>r. db_mac_address r \<in> set macs) connection)))"

text \<open>
  The loops of \<open>photometers_repaired\<close> and \<open>photometers_renamed\<close> over the rows that
  are not easy. \<open>None\<close> is a run that does not return, \<open>Some (Inl e)\<close> an exception.
\<close>

fun photometers_repaired_loop ::
  "name_to_mac_t \<Rightarrow> (string, string) dict list \<Rightarrow> (error + (string, string) dict list) option" where
  "photometers_repaired_loop connection [] = Some (Inr [])"
| "photometers_repaired_loop connection (row # rows) =
     (case getitem row ''name'' of
        Inl e \<Rightarrow> Some (Inl e)
      | Inr name \<Rightarrow>
     (case name_mac_current_history connection (Some name) None of
        Inl e \<Rightarrow> Some (Inl e)
      | Inr (history, break_end_tstamps, break_start_tstamps, truncated) \<Rightarrow>
     (case name_mac_previous_related_history connection (item2 (history ! 0)) (Some name) None of
        None \<Rightarrow> None
      | Some (prev_history, c1) \<Rightarrow>
     (case name_mac_next_related_history connection (item3 (last history)) (Some name) None of
        None \<Rightarrow> None
      | Some (next_history, c2) \<Rightarrow>
     (case photometers_repaired_loop connection rows of
        None \<Rightarrow> None
      | Some (Inl e) \<Rightarrow> Some (Inl e)
      | Some (Inr output) \<Rightarrow>
          Some (Inr (if length history > 1 \<and> length break_end_tstamps = 0
                        \<and> length prev_history = 0 \<and> length next_history = 0
                     then row # output else output)))))))"

definition photometers_repaired ::
  "name_to_mac_t \<Rightarrow> (error + (string, string) dict list) option" where
  "photometers_repaired connection =
     photometers_repaired_loop connection (photometers_not_easy connection)"

fun photometers_renamed_loop ::
  "name_to_mac_t \<Rightarrow> (string, string) dict list \<Rightarrow> (error + (string, string) dict list) option" where
  "photometers_renamed_loop connection [] = Some (Inr [])"
| "photometers_renamed_loop connection (row # rows) =
     (case getitem row ''mac'' of
        Inl e \<Rightarrow> Some (Inl e)
      | Inr mac \<Rightarrow>
     (case name_mac_current_history connection None (Some mac) of
        Inl e \<Rightarrow> Some (Inl e)
      | Inr (history, break_end_tstamps, break_start_tstamps, truncated) \<Rightarrow>
     (case name_mac_previous_related_history connection (item2 (history ! 0)) None (Some mac) of
        None \<Rightarrow> None
      | Some (prev_history, c1) \<Rightarrow>
     (case name_mac_next_related_history connection (item3 (last history)) None (Some mac) of
        None \<Rightarrow> None
      | Some (next_history, c2) \<Rightarrow>
     (case photometers_renamed_loop connection rows of
        None \<Rightarrow> None
      | Some (Inl e) \<Rightarrow> Some (Inl e)
      | Some (Inr output) \<Rightarrow>
          Some (Inr (if length history > 1 \<and> length break_end_tstamps = 0
                        \<and> length prev_history = 0 \<and> length next_history = 0
                     then row # output else output)))))))"

definition photometers_renamed ::
  "name_to_mac_t \<Rightarrow> (error + (string, string) dict list) option" where
  "photometers_renamed connection =
     photometers_renamed_loop connection (photometers_not_easy connection)"

text \<open>
  \<open>photometers_complicated\<close> turns each row into the tuple of its values, takes the
  set difference and builds rows again with the keys of the first row. A Python set has
  no order of its own: the model lists the difference in the order of \<open>total\<close>, each
  tuple once.
\<close>

definition photometers_complicated ::
  "name_to_mac_t \<Rightarrow> (error + (string, string) dict list) option" where
  "photometers_complicated connection =
     (let total = photometers_not_easy connection in
      case photometers_repaired connection of
        None \<Rightarrow> None
      | Some (Inl e) \<Rightarrow> Some (Inl e)
      | Some (Inr only_repaired) \<Rightarrow>
     (case photometers_renamed connection of
        None \<Rightarrow> None
      | Some (Inl e) \<Rightarrow> Some (Inl e)
      | Some (Inr only_renamed) \<Rightarrow>
          if total = [] then Some (Inl IndexError)
          else
            (let keys = map fst (total ! 0);
                 total_set = map (map snd) total;
                 repaired_set = map (map snd) only_repaired;
                 renamed_set = map (map snd) only_renamed;
                 difference = remdups (filter (\<lambda>t. t \<notin> set repaired_set \<and> t \<notin> set renamed_set)
                                         total_set)
             in Some (Inr (map (\<lambda>values. zip keys values) difference)))))"

section \<open>Auxiliary notions for the proofs\<close>

definition upper_hex :: "char \<Rightarrow> bool" where
  "upper_hex c \<longleftrightarrow>
     (let n = (of_char c :: nat) in (48 \<le> n \<and> n \<le> 57) \<or> (65 \<le> n \<and> n \<le> 70))"

definition hexval :: "string \<Rightarrow> nat" where
  "hexval s = foldl (\<lambda>a c. a * 16 + the (digit_value c)) 0 s"

definition not_None_rows :: "'a option list \<Rightarrow> 'a list" where
  "not_None_rows iterable = map the (filter (\<lambda>row. row \<noteq> None) iterable)"

definition group_of :: "('g, 'r list) dict \<Rightarrow> 'g \<Rightarrow> 'r list" where
  "group_of result g = (case map_of result g of None \<Rightarrow> [] | Some rows \<Rightarrow> rows)"

text \<open>
  A break of a history at position \<open>j\<close>: the record there has a successor whose
  \<open>valid_since\<close> is not its \<open>valid_until\<close>. The records that the query of
  \<open>name_mac_current_history\<close> matches, by name when a name is given and by MAC address
  otherwise, and the columns it selects.
\<close>

definition break_at :: "history_row list \<Rightarrow> nat \<Rightarrow> bool" where
  "break_at history j \<longleftrightarrow>
     Suc j < length history \<and> item3 (history ! j) \<noteq> item2 (history ! Suc j)"

definition matching_records ::
  "name_to_mac_t \<Rightarrow> string option \<Rightarrow> string option \<Rightarrow> name_to_mac list" where
  "matching_records connection name mac =
     (if name \<noteq> None then filter (\<lambda>r. Some (db_name r) = name) connection
      else filter (\<lambda>r. Some (db_mac_address r) = mac) connection)"

definition selected_columns :: "string option \<Rightarrow> name_to_mac \<Rightarrow> history_row" where
  "selected_columns name = (if name \<noteq> None then select_name_first else select_mac_first)"

text \<open>
  The two loops with a bound on the number of queries: \<open>None\<close> when the bound is
  reached before the loop is left.
\<close>

fun previous_related_fuel ::
  "nat \<Rightarrow> name_to_mac_t \<Rightarrow> string option \<Rightarrow> string \<Rightarrow> history_row list \<Rightarrow> nat
     \<Rightarrow> (history_row list \<times> bool \<times> nat) option" where
  "previous_related_fuel 0 connection name tstamp history queries = None"
| "previous_related_fuel (Suc k) connection name tstamp history queries =
     (let fragment = name_mac_previous_related_history_sql name tstamp connection;
          L = length fragment
      in if L = 0 then Some (history, False, Suc queries)
         else if L > 1 then Some (history @ fragment, True, Suc queries)
         else previous_related_fuel k connection name (item2 (fragment ! 0))
                (history @ fragment) (Suc queries))"

fun next_related_fuel ::
  "nat \<Rightarrow> name_to_mac_t \<Rightarrow> string option \<Rightarrow> string \<Rightarrow> history_row list \<Rightarrow> nat
     \<Rightarrow> (history_row list \<times> bool \<times> nat) option" where
  "next_related_fuel 0 connection name tstamp history queries = None"
| "next_related_fuel (Suc k) connection name tstamp history queries =
     (let fragment = name_mac_next_related_history_sql name tstamp connection;
          L = length fragment
      in if L = 0 then Some (history, False, Suc queries)
         else if L > 1 then Some (history @ fragment, True, Suc queries)
         else next_related_fuel k connection name (item3 (fragment ! 0))
                (history @ fragment) (Suc queries))"

text \<open>
  The chain of time stamps that the first \<open>k\<close> queries of a loop ask for: the start,
  then the \<open>valid_since\<close> (the \<open>valid_until\<close> in the forward loop) of the only record
  found, as long as exactly one record is found.
\<close>

fun previous_timestamps :: "nat \<Rightarrow> name_to_mac_t \<Rightarrow> string option \<Rightarrow> string \<Rightarrow> string list" where
  "previous_timestamps 0 connection name tstamp = []"
| "previous_timestamps (Suc k) connection name tstamp =
     tstamp #
       (let fragment = name_mac_previous_related_history_sql name tstamp connection
        in if length fragment = 1
           then previous_timestamps k connection name (item2 (fragment ! 0)) else [])"

fun next_timestamps :: "nat \<Rightarrow> name_to_mac_t \<Rightarrow> string option \<Rightarrow> string \<Rightarrow> string list" where
  "next_timestamps 0 connection name tstamp = []"
| "next_timestamps (Suc k) connection name tstamp =
     tstamp #
       (let fragment = name_mac_next_related_history_sql name tstamp connection
        in if length fragment = 1
           then next_timestamps k connection name (item3 (fragment ! 0)) else [])"

section \<open>utils.py: properties of MAC formatting\<close>

lemma hex_digit_upper: "d < 16 \<Longrightarrow> upper_hex (hex_digit d)"
  by (auto simp: hex_digit_def upper_hex_def Let_def)

lemma digit_value_hex_digit: "d < 16 \<Longrightarrow> digit_value (hex_digit d) = Some d"
  by (auto simp: hex_digit_def digit_value_def Let_def)

lemma upper_hex_digit: "upper_hex c \<Longrightarrow> digit_value c \<noteq> None"
  by (auto simp: upper_hex_def digit_value_def Let_def)

lemma upper_hex_plain:
  "upper_hex c \<Longrightarrow> c \<noteq> CHR ''_'' \<and> c \<noteq> CHR '':'' \<and> c \<noteq> CHR ''+'' \<and> c \<noteq> CHR ''-''
     \<and> c \<noteq> CHR ''x'' \<and> c \<noteq> CHR ''X'' \<and> \<not> is_space c"
  by (auto simp: upper_hex_def is_space_def Let_def)

lemma scan_digits_all:
  "\<forall>c\<in>set s. digit_value c \<noteq> None \<and> c \<noteq> CHR ''_'' \<Longrightarrow>
   scan_digits prev k acc s =
     Some (foldl (\<lambda>a c. a * 16 + the (digit_value c)) acc s, k + length s, last (prev # s), [])"
  by (induction s arbitrary: prev k acc) auto

lemma to_hex_upper: "\<forall>c\<in>set (to_hex n). upper_hex c"
  by (induction n rule: to_hex.induct) (subst to_hex.simps, auto simp: hex_digit_upper)

lemma to_hex_nonempty: "to_hex n \<noteq> []"
  by (subst to_hex.simps) simp

lemma to_hex_value: "foldl (\<lambda>a c. a * 16 + the (digit_value c)) 0 (to_hex n) = n"
  by (induction n rule: to_hex.induct) (subst to_hex.simps, auto simp: digit_value_hex_digit)

lemma long_from_string_base_upper:
  assumes "\<forall>c\<in>set s. upper_hex c" and "s \<noteq> []"
  shows "long_from_string_base s = Some (hexval s, [])"
proof -
  from assms have h: "hd s \<noteq> CHR ''_''" "last s \<noteq> CHR ''_''"
    using upper_hex_plain by (metis hd_in_set, metis last_in_set)
  have "\<forall>c\<in>set s. digit_value c \<noteq> None \<and> c \<noteq> CHR ''_''"
    using assms(1) upper_hex_digit upper_hex_plain by blast
  then have "scan_digits (CHR 0x00) 0 0 s = Some (hexval s, length s, last s, [])"
    using assms(2) by (simp add: scan_digits_all hexval_def)
  with h assms(2) show ?thesis
    by (simp add: long_from_string_base_def)
qed

lemma strip_prefix_upper:
  assumes "\<forall>c\<in>set s. upper_hex c"
  shows "strip_prefix s = s"
proof (cases s)
  case Nil
  then show ?thesis by (simp add: strip_prefix_def)
next
  case (Cons a t)
  show ?thesis
  proof (cases t)
    case Nil
    with Cons show ?thesis by (simp add: strip_prefix_def)
  next
    case (Cons b r)
    with assms \<open>s = a # t\<close> have "upper_hex b" by simp
    then have "b \<noteq> CHR ''x'' \<and> b \<noteq> CHR ''X''" using upper_hex_plain by blast
    with Cons \<open>s = a # t\<close> show ?thesis by (simp add: strip_prefix_def)
  qed
qed

lemma int16_upper:
  assumes "\<forall>c\<in>set s. upper_hex c" and "s \<noteq> []"
  shows "int16 s = Some (int (hexval s))"
proof -
  obtain a t where s: "s = a # t" using assms(2) by (cases s) auto
  with assms(1) have a: "upper_hex a" by simp
  then have "\<not> is_space a" "a \<noteq> CHR ''+''" "a \<noteq> CHR ''-''" using upper_hex_plain by blast+
  then have "strip_sign (dropWhile is_space s) = (False, s)"
    by (simp add: s strip_sign_def)
  then show ?thesis
    using assms by (simp add: int16_def strip_prefix_upper long_from_string_base_upper)
qed

lemma int16_minus_upper:
  assumes "\<forall>c\<in>set s. upper_hex c" and "s \<noteq> []"
  shows "int16 (CHR ''-'' # s) = Some (- int (hexval s))"
proof -
  have "\<not> is_space (CHR ''-'')" by (simp add: is_space_def)
  then have "strip_sign (dropWhile is_space (CHR ''-'' # s)) = (True, s)"
    by (simp add: strip_sign_def)
  then show ?thesis
    using assms by (simp add: int16_def strip_prefix_upper long_from_string_base_upper)
qed

lemma hexval_to_hex: "hexval (to_hex n) = n"
  by (simp add: hexval_def to_hex_value)

lemma hexval_zeros: "hexval (replicate k (CHR ''0'') @ s) = hexval s"
proof -
  have "foldl (\<lambda>a c. a * 16 + the (digit_value c)) 0 (replicate k (CHR ''0'')) = 0"
    by (induction k) (auto simp: digit_value_def)
  then show ?thesis by (simp add: hexval_def)
qed

lemma upper_hex_zero: "upper_hex (CHR ''0'')"
  by (simp add: upper_hex_def)

lemma int16_format_02X: "int16 (format_02X v) = Some v"
proof (cases "v < 0")
  case True
  then show ?thesis
    using int16_minus_upper [OF to_hex_upper to_hex_nonempty, of "nat (- v)"]
    by (simp add: format_02X_def hexval_to_hex)
next
  case False
  let ?s = "replicate (2 - length (to_hex (nat v))) (CHR ''0'') @ to_hex (nat v)"
  have "\<forall>c\<in>set ?s. upper_hex c" using to_hex_upper upper_hex_zero by auto
  moreover have "?s \<noteq> []" using to_hex_nonempty by simp
  ultimately have "int16 ?s = Some (int (hexval ?s))" by (rule int16_upper)
  with False show ?thesis
    by (simp add: format_02X_def Let_def hexval_zeros hexval_to_hex)
qed

lemma format_02X_no_colon: "CHR '':'' \<notin> set (format_02X v)"
proof -
  have "\<forall>c\<in>set (format_02X v). c = CHR ''-'' \<or> upper_hex c"
    using to_hex_upper [of "nat v"] to_hex_upper [of "nat (- v)"] upper_hex_zero
    by (auto simp: format_02X_def Let_def)
  then show ?thesis using upper_hex_plain by fastforce
qed

lemma split_colon_nonempty: "split_colon s \<noteq> []"
  by (cases s) auto

lemma split_colon_plain: "CHR '':'' \<notin> set w \<Longrightarrow> split_colon w = [w]"
  by (induction w) auto

lemma split_colon_append:
  "CHR '':'' \<notin> set w \<Longrightarrow> split_colon (w @ CHR '':'' # r) = w # split_colon r"
  by (induction w) auto

lemma split_join_colon:
  "ws \<noteq> [] \<Longrightarrow> \<forall>w\<in>set ws. CHR '':'' \<notin> set w \<Longrightarrow> split_colon (join_colon ws) = ws"
proof (induction ws rule: join_colon.induct)
  case 1
  then show ?case by simp
next
  case (2 w)
  then show ?case by (simp add: split_colon_plain)
next
  case (3 w v ws)
  then show ?case by (simp add: split_colon_append del: split_colon.simps)
qed

lemma int16_all_format: "int16_all (map format_02X vs) = Some vs"
  by (induction vs) (auto simp: int16_format_02X)

lemma int16_all_length: "int16_all xs = Some vs \<Longrightarrow> length vs = length xs"
  by (induction xs arbitrary: vs) (auto split: option.splits)

lemma formatted_mac_join: "vs \<noteq> [] \<Longrightarrow> formatted_mac (PyStr (join_colon (map format_02X vs))) = Inr (join_colon (map format_02X vs))"
  by (simp add: split_join_colon format_02X_no_colon int16_all_format)

lemma int16_all_map: "int16_all xs = Some vs \<Longrightarrow> map int16 xs = map Some vs"
  by (induction xs arbitrary: vs) (auto split: option.splits)

lemma formatted_mac_Inr:
  "formatted_mac (PyStr a) = Inr a' \<Longrightarrow>
   \<exists>vs. int16_all (split_colon a) = Some vs \<and> vs \<noteq> [] \<and> a' = join_colon (map format_02X vs)"
proof -
  assume h: "formatted_mac (PyStr a) = Inr a'"
  then obtain vs where vs: "int16_all (split_colon a) = Some vs" "a' = join_colon (map format_02X vs)"
    by (auto split: option.splits)
  from vs(1) have "length vs = length (split_colon a)" by (rule int16_all_length)
  with split_colon_nonempty [of a] have "vs \<noteq> []" by auto
  with vs show ?thesis by blast
qed

text \<open>
  C4. \<open>formatted_mac\<close> is canonicalizing: applied to its own output it succeeds and
  returns the same string, and two accepted strings whose segments have the same values
  under \<open>int(x, 16)\<close> get the same output.
\<close>

theorem formatted_mac_canonical:
  "(formatted_mac (PyStr a :: 'v pyval) = Inr a' \<longrightarrow>
      formatted_mac (PyStr a' :: 'v pyval) = Inr a') \<and>
   (formatted_mac (PyStr a :: 'v pyval) = Inr a' \<and> formatted_mac (PyStr b :: 'v pyval) = Inr b' \<and>
      map int16 (split_colon a) = map int16 (split_colon b) \<longrightarrow> a' = b')"
proof (intro conjI impI)
  assume "formatted_mac (PyStr a :: 'v pyval) = Inr a'"
  then obtain vs where "vs \<noteq> []" "a' = join_colon (map format_02X vs)"
    using formatted_mac_Inr by blast
  then show "formatted_mac (PyStr a' :: 'v pyval) = Inr a'"
    by (simp del: formatted_mac.simps add: formatted_mac_join)
next
  assume h: "formatted_mac (PyStr a :: 'v pyval) = Inr a' \<and> formatted_mac (PyStr b :: 'v pyval) = Inr b' \<and>
      map int16 (split_colon a) = map int16 (split_colon b)"
  then obtain vs where vs: "int16_all (split_colon a) = Some vs" "a' = join_colon (map format_02X vs)"
    using formatted_mac_Inr by blast
  from h obtain ws where ws: "int16_all (split_colon b) = Some ws" "b' = join_colon (map format_02X ws)"
    using formatted_mac_Inr by blast
  from vs(1) ws(1) h have "map Some vs = map Some ws"
    using int16_all_map by metis
  then have "vs = ws" by (simp add: map_eq_conv inj_map_eq_map)
  with vs ws show "a' = b'" by simp
qed

theorem formatted_mac_canonical_witness:
  "formatted_mac (PyStr ''1a:2'' :: unit pyval) = Inr ''1A:02'' \<and>
   formatted_mac (PyStr ''01A:0x2'' :: unit pyval) = Inr ''1A:02'' \<and>
   map int16 (split_colon ''1a:2'') = map int16 (split_colon ''01A:0x2'') \<and>
   formatted_mac (PyStr ''1A:02'' :: unit pyval) = Inr ''1A:02''"
proof -
  have h1: "formatted_mac (PyStr ''1a:2'' :: unit pyval) = Inr ''1A:02''" by code_simp
  have h2: "formatted_mac (PyStr ''01A:0x2'' :: unit pyval) = Inr ''1A:02''" by code_simp
  have h3: "map int16 (split_colon ''1a:2'') = map int16 (split_colon ''01A:0x2'')" by code_simp
  from formatted_mac_canonical [where ?'v = unit, of "''1a:2''" "''1A:02''" "''01A:0x2''" "''1A:02''"] h1
  have "formatted_mac (PyStr ''1A:02'' :: unit pyval) = Inr ''1A:02''" by blast
  with h1 h2 h3 show ?thesis by blast
qed

text \<open>
  C9. \<open>formatted_mac\<close> checks less than the MAC predicates: it accepts \<open>1:2\<close>, which
  has two segments, and \<open>100:0:0:0:0:0\<close>, whose first segment exceeds \<open>0xFF\<close>; neither
  input nor output passes \<open>is_mac\<close>, and the first segment of the second output has
  three characters.
\<close>

theorem formatted_mac_weaker_than_is_mac:
  "formatted_mac (PyStr ''1:2'' :: 'v pyval) = Inr ''01:02'' \<and>
   \<not> is_mac ''1:2'' \<and> \<not> is_tess_mac ''1:2'' \<and> \<not> is_mac ''01:02'' \<and>
   formatted_mac (PyStr ''100:0:0:0:0:0'' :: 'v pyval) = Inr ''100:00:00:00:00:00'' \<and>
   \<not> is_mac ''100:0:0:0:0:0'' \<and> \<not> is_mac ''100:00:00:00:00:00'' \<and>
   int16 ''100'' = Some 256 \<and> hd (split_colon ''100:00:00:00:00:00'') = ''100'' \<and>
   length (hd (split_colon ''100:00:00:00:00:00'')) > 2"
  by code_simp

text \<open>
  C8. \<open>common_A_B_items\<close> is the intersection of the two key sets and
  \<open>in_A_not_in_B\<close> the difference; they are disjoint and together give the keys of
  \<open>A\<close>.
\<close>

theorem common_and_difference_partition:
  "common_A_B_items map_A map_B = fst ` set map_A \<inter> fst ` set map_B \<and>
   in_A_not_in_B map_A map_B = fst ` set map_A - fst ` set map_B \<and>
   common_A_B_items map_A map_B \<inter> in_A_not_in_B map_A map_B = {} \<and>
   common_A_B_items map_A map_B \<union> in_A_not_in_B map_A map_B = fst ` set map_A"
  by (auto simp: common_A_B_items_def in_A_not_in_B_def)

section \<open>dbutils.py: properties of group_by\<close>

lemma not_None_rows_simps [simp]:
  "not_None_rows [] = []"
  "not_None_rows (None # xs) = not_None_rows xs"
  "not_None_rows (Some x # xs) = x # not_None_rows xs"
  by (simp_all add: not_None_rows_def)

lemma set_not_None_rows: "x \<in> set (not_None_rows xs) \<longleftrightarrow> Some x \<in> set xs"
  by (induction xs) (auto simp: not_None_rows_def)

lemma group_of_append_to:
  "group_of (append_to result g row) k =
     (if k = g then group_of result g @ [row] else group_of result k)"
  by (simp add: group_of_def append_to_def update_conv')

lemma map_of_append_to:
  "map_of (append_to result g row) k =
     (if k = g then Some (group_of result g @ [row]) else map_of result k)"
  by (simp add: group_of_def append_to_def update_conv')

lemma distinct_append_to:
  "distinct (map fst result) \<Longrightarrow> distinct (map fst (append_to result g row))"
  by (simp add: append_to_def distinct_update)

lemma mset_update_first:
  "mset (concat (map snd (AList.update k
      ((case map_of al k of None \<Rightarrow> [] | Some rows \<Rightarrow> rows) @ [row]) al))) =
   mset (concat (map snd al)) + {#row#}"
  by (induction al) auto

lemma mset_append_to:
  "mset (concat (map snd (append_to result g row))) = mset (concat (map snd result)) + {#row#}"
  by (simp add: append_to_def mset_update_first)

lemma group_by_loop_total:
  "\<forall>row. Some row \<in> set iterable \<longrightarrow> map_of row key \<noteq> None \<Longrightarrow>
   \<exists>result. group_by_loop iterable key start = Inr result"
proof (induction iterable key start rule: group_by_loop.induct)
  case (1 key result)
  then show ?case by simp
next
  case (2 iterable key result)
  then show ?case by simp
next
  case (3 row iterable key result)
  from "3.prems" obtain g where g: "map_of row key = Some g" by auto
  then have "getitem row key = Inr g" by (simp add: getitem_def)
  with 3 show ?case by simp
qed

lemma group_by_loop_groups:
  "group_by_loop iterable key start = Inr result \<Longrightarrow>
   group_of result g =
     group_of start g @ filter (\<lambda>row. map_of row key = Some g) (not_None_rows iterable)"
proof (induction iterable key start rule: group_by_loop.induct)
  case (1 key result)
  then show ?case by simp
next
  case (2 iterable key result)
  then show ?case by simp
next
  case (3 row iterable key start)
  from "3.prems" obtain h where h: "getitem row key = Inr h"
    by (cases "getitem row key") auto
  then have m: "map_of row key = Some h"
    by (auto simp: getitem_def split: option.splits)
  from "3.prems" h have "group_by_loop iterable key (append_to start h row) = Inr result"
    by simp
  from "3.IH" [OF h this] m show ?case
    by (auto simp: group_of_append_to)
qed

lemma group_by_loop_distinct:
  "group_by_loop iterable key start = Inr result \<Longrightarrow> distinct (map fst start) \<Longrightarrow>
   distinct (map fst result)"
proof (induction iterable key start rule: group_by_loop.induct)
  case (3 row iterable key start)
  from "3.prems" obtain h where h: "getitem row key = Inr h"
    by (cases "getitem row key") auto
  with "3.prems" have "group_by_loop iterable key (append_to start h row) = Inr result"
    by simp
  from "3.IH" [OF h this] "3.prems"(2) show ?case
    by (simp add: distinct_append_to)
qed simp_all

lemma group_by_loop_mset:
  "group_by_loop iterable key start = Inr result \<Longrightarrow>
   mset (concat (map snd result)) = mset (concat (map snd start)) + mset (not_None_rows iterable)"
proof (induction iterable key start rule: group_by_loop.induct)
  case (3 row iterable key start)
  from "3.prems" obtain h where h: "getitem row key = Inr h"
    by (cases "getitem row key") auto
  with "3.prems" have "group_by_loop iterable key (append_to start h row) = Inr result"
    by simp
  from "3.IH" [OF h this] show ?case
    by (simp add: mset_append_to)
qed simp_all

lemma group_by_loop_keys:
  "group_by_loop iterable key start = Inr result \<Longrightarrow>
   fst ` set result = fst ` set start \<union> {g. \<exists>row \<in> set (not_None_rows iterable). map_of row key = Some g}"
proof (induction iterable key start rule: group_by_loop.induct)
  case (3 row iterable key start)
  from "3.prems" obtain h where h: "getitem row key = Inr h"
    by (cases "getitem row key") auto
  then have m: "map_of row key = Some h"
    by (auto simp: getitem_def split: option.splits)
  from "3.prems" h have "group_by_loop iterable key (append_to start h row) = Inr result"
    by simp
  from "3.IH" [OF h this] have
    "fst ` set result = fst ` set (append_to start h row) \<union>
       {g. \<exists>row \<in> set (not_None_rows iterable). map_of row key = Some g}" .
  moreover have "fst ` set (append_to start h row) = insert h (fst ` set start)"
    unfolding append_to_def by (simp only: dom_update insert_is_Un [symmetric])
  ultimately show ?case using m by auto
qed simp_all

lemma group_of_member:
  "distinct (map fst result) \<Longrightarrow> (g, rows) \<in> set result \<Longrightarrow> group_of result g = rows"
  by (simp add: group_of_def)

lemma group_by_spec:
  assumes "\<forall>row. Some row \<in> set iterable \<longrightarrow> map_of row key \<noteq> None"
  shows "\<exists>result. group_by iterable key = Inr result \<and>
           distinct (map fst result) \<and>
           (\<forall>g rows. (g, rows) \<in> set result \<longrightarrow>
              rows \<noteq> [] \<and>
              rows = filter (\<lambda>row. map_of row key = Some g) (not_None_rows iterable)) \<and>
           fst ` set result = {g. \<exists>row. Some row \<in> set iterable \<and> map_of row key = Some g} \<and>
           mset (concat (map snd result)) = mset (not_None_rows iterable)"
proof -
  from group_by_loop_total [OF assms] obtain result
    where r: "group_by_loop iterable key [] = Inr result" by blast
  have d: "distinct (map fst result)"
    using group_by_loop_distinct [OF r] by simp
  have k: "fst ` set result = {g. \<exists>row. Some row \<in> set iterable \<and> map_of row key = Some g}"
    using group_by_loop_keys [OF r] by (auto simp: set_not_None_rows)
  have m: "mset (concat (map snd result)) = mset (not_None_rows iterable)"
    using group_by_loop_mset [OF r] by simp
  have g: "rows \<noteq> [] \<and> rows = filter (\<lambda>row. map_of row key = Some g) (not_None_rows iterable)"
    if "(g, rows) \<in> set result" for g rows
  proof -
    from that d have "group_of result g = rows" by (rule group_of_member [rotated])
    with group_by_loop_groups [OF r, of g]
    have e: "rows = filter (\<lambda>row. map_of row key = Some g) (not_None_rows iterable)"
      by (simp add: group_of_def)
    from that have "g \<in> fst ` set result" by force
    with k obtain row where "Some row \<in> set iterable" "map_of row key = Some g" by auto
    then have "filter (\<lambda>row. map_of row key = Some g) (not_None_rows iterable) \<noteq> []"
      by (auto simp: filter_empty_conv set_not_None_rows)
    with e show ?thesis by simp
  qed
  from r d k m g show ?thesis
    unfolding group_by_def by blast
qed

text \<open>
  C10. When every row that is not \<open>None\<close> has the key, \<open>group_by\<close> returns a
  dictionary that partitions those rows: the group of a value holds, in input order,
  exactly the rows with that value under the key, no group is empty, the keys are the
  values that occur, and all groups together hold every such row as often as the input
  does; a \<open>None\<close> row is in no group.
\<close>

theorem group_by_partitions:
  assumes "\<forall>row. Some row \<in> set iterable \<longrightarrow> map_of row key \<noteq> None"
  shows "\<exists>result. group_by iterable key = Inr result \<and>
           distinct (map fst result) \<and>
           (\<forall>g rows. (g, rows) \<in> set result \<longrightarrow>
              rows \<noteq> [] \<and>
              rows = filter (\<lambda>row. map_of row key = Some g) (not_None_rows iterable)) \<and>
           fst ` set result = {g. \<exists>row. Some row \<in> set iterable \<and> map_of row key = Some g} \<and>
           mset (concat (map snd result)) = mset (not_None_rows iterable)"
  using assms by (rule group_by_spec)

theorem group_by_partitions_witness:
  "list_all (\<lambda>row. row = None \<or> map_of (the row) ''mac'' \<noteq> None)
     [Some [(''mac'', 1::nat), (''zp'', 20)], None, Some [(''mac'', 2)],
      Some [(''mac'', 1), (''zp'', 21)]] \<and>
   group_by [Some [(''mac'', 1::nat), (''zp'', 20)], None, Some [(''mac'', 2)],
        Some [(''mac'', 1), (''zp'', 21)]] ''mac'' =
     Inr [(1, [[(''mac'', 1), (''zp'', 20)], [(''mac'', 1), (''zp'', 21)]]), (2, [[(''mac'', 2)]])]"
proof -
  let ?it = "[Some [(''mac'', 1::nat), (''zp'', 20)], None, Some [(''mac'', 2)],
        Some [(''mac'', 1), (''zp'', 21)]]"
  have h: "\<forall>row. Some row \<in> set ?it \<longrightarrow> map_of row ''mac'' \<noteq> None" by auto
  from group_by_partitions [OF h] obtain result where "group_by ?it ''mac'' = Inr result" by blast
  moreover have "group_by ?it ''mac'' =
     Inr [(1, [[(''mac'', 1), (''zp'', 20)], [(''mac'', 1), (''zp'', 21)]]), (2, [[(''mac'', 2)]])]"
    by (simp add: group_by_def getitem_def append_to_def)
  ultimately show ?thesis by simp
qed

section \<open>zptess.py and tessdb.py: rows with a malformed MAC address\<close>

lemma formatted_mac_errors:
  "formatted_mac x = Inl e \<Longrightarrow> e = ValueError \<or> e = TypeError"
  by (cases x) (auto split: option.splits)

lemma remap_cases:
  assumes "(remap, col, n) \<in> {(zptess_tessdb_remap_info, 0, 5), (zptess_remap_info, 0, 5),
                               (tessdb_remap_info, 1, 4)}"
    and "n \<le> length row"
  shows "(formatted_mac (row ! col) = Inl ValueError \<and> remap row = Inr None) \<or>
         (formatted_mac (row ! col) = Inl TypeError \<and>
            remap row = (if col = 1 then Inl TypeError else Inr None)) \<or>
         (\<exists>mac d. formatted_mac (row ! col) = Inr mac \<and> remap row = Inr (Some d) \<and>
                  map_of d ''mac'' = Some (PyStr mac))"
proof -
  from assms have i: "item row 0 = Inr (row ! 0)" "item row 1 = Inr (row ! 1)"
    "item row 2 = Inr (row ! 2)" "item row 3 = Inr (row ! 3)"
    by (auto simp: item_def)
  from assms have i4: "col = 0 \<Longrightarrow> item row 4 = Inr (row ! 4)"
    by (auto simp: item_def)
  show ?thesis
  proof (cases "formatted_mac (row ! col)")
    case (Inl e)
    then have "e = ValueError \<or> e = TypeError" by (rule formatted_mac_errors)
    with Inl assms(1) i show ?thesis
      by (auto simp: zptess_tessdb_remap_info_def zptess_remap_info_def tessdb_remap_info_def)
  next
    case (Inr mac)
    with assms(1) i i4 show ?thesis
      by (auto simp: zptess_tessdb_remap_info_def zptess_remap_info_def tessdb_remap_info_def)
  qed
qed

lemma list_map_total:
  "\<forall>x\<in>set xs. \<exists>y. f x = Inr y \<Longrightarrow> list_map f xs = Inr (map (\<lambda>x. projr (f x)) xs)"
  by (induction xs) auto

lemma length_not_None_rows_map:
  "length (not_None_rows (map g xs)) = length (filter (\<lambda>x. g x \<noteq> None) xs)"
  by (induction xs) (auto simp: not_None_rows_def)

text \<open>
  C7. For the three remap functions (the MAC is column 0 of the five columns read in
  zptess.py and column 1 of the four read in tessdb.py) and rows that have these columns:
  a row whose MAC makes \<open>formatted_mac\<close> raise ValueError is mapped to \<open>None\<close> and
  nothing is raised, and a row whose MAC is formatted is mapped to a dictionary holding
  the formatted MAC. The TypeError that \<open>formatted_mac\<close> raises for a MAC of type
  \<open>bytes\<close> is not a ValueError: zptess.py maps such a row to \<open>None\<close> as well, while
  in tessdb.py the TypeError leaves \<open>tessdb_remap_info\<close>. When no row of tessdb.py has
  such a MAC, mapping all the rows raises nothing, the \<open>None\<close> entries are exactly
  those of the rows that \<open>formatted_mac\<close> rejects, and grouping the mapped rows by MAC
  succeeds, leaves the \<open>None\<close> rows out and holds exactly the rows whose MAC was
  formatted.
\<close>

theorem malformed_mac_rows_skipped:
  assumes "(remap, col, n) \<in> {(zptess_tessdb_remap_info, 0, 5), (zptess_remap_info, 0, 5),
                               (tessdb_remap_info, 1, 4)}"
    and "\<forall>row\<in>set rows. n \<le> length row"
  shows "(\<forall>row\<in>set rows.
            (formatted_mac (row ! col) = Inl ValueError \<longrightarrow> remap row = Inr None) \<and>
            (formatted_mac (row ! col) = Inl TypeError \<longrightarrow>
               remap row = (if col = 1 then Inl TypeError else Inr None)) \<and>
            (\<forall>mac. formatted_mac (row ! col) = Inr mac \<longrightarrow>
               (\<exists>d. remap row = Inr (Some d) \<and> map_of d ''mac'' = Some (PyStr mac)))) \<and>
         ((col = 1 \<longrightarrow> (\<forall>row\<in>set rows. formatted_mac (row ! col) \<noteq> Inl TypeError)) \<longrightarrow>
          (\<exists>out result.
             list_map remap rows = Inr out \<and> length out = length rows \<and>
             (\<forall>i<length rows. remap (rows ! i) = Inr (out ! i) \<and>
                (out ! i = None \<longleftrightarrow> isl (formatted_mac (rows ! i ! col))) \<and>
                (\<forall>d. out ! i = Some d \<longrightarrow>
                   map_of d ''mac'' = Some (PyStr (projr (formatted_mac (rows ! i ! col)))))) \<and>
             group_by_mac out = Inr result \<and>
             (\<forall>g ds. (g, ds) \<in> set result \<longrightarrow>
                ds = filter (\<lambda>d. map_of d ''mac'' = Some g) (not_None_rows out)) \<and>
             mset (concat (map snd result)) = mset (not_None_rows out) \<and>
             length (concat (map snd result)) =
               length (filter (\<lambda>row. \<not> isl (formatted_mac (row ! col))) rows)))"
proof (intro conjI impI)
  have c0: "(formatted_mac (row ! col) = Inl ValueError \<and> remap row = Inr None) \<or>
         (formatted_mac (row ! col) = Inl TypeError \<and>
            remap row = (if col = 1 then Inl TypeError else Inr None)) \<or>
         (\<exists>mac d. formatted_mac (row ! col) = Inr mac \<and> remap row = Inr (Some d) \<and>
                  map_of d ''mac'' = Some (PyStr mac))" if "row \<in> set rows" for row
    using remap_cases [OF assms(1)] assms(2) that by blast
  show "\<forall>row\<in>set rows.
            (formatted_mac (row ! col) = Inl ValueError \<longrightarrow> remap row = Inr None) \<and>
            (formatted_mac (row ! col) = Inl TypeError \<longrightarrow>
               remap row = (if col = 1 then Inl TypeError else Inr None)) \<and>
            (\<forall>mac. formatted_mac (row ! col) = Inr mac \<longrightarrow>
               (\<exists>d. remap row = Inr (Some d) \<and> map_of d ''mac'' = Some (PyStr mac)))"
  proof
    fix row assume "row \<in> set rows"
    from c0 [OF this] show "(formatted_mac (row ! col) = Inl ValueError \<longrightarrow> remap row = Inr None) \<and>
            (formatted_mac (row ! col) = Inl TypeError \<longrightarrow>
               remap row = (if col = 1 then Inl TypeError else Inr None)) \<and>
            (\<forall>mac. formatted_mac (row ! col) = Inr mac \<longrightarrow>
               (\<exists>d. remap row = Inr (Some d) \<and> map_of d ''mac'' = Some (PyStr mac)))"
      by auto
  qed
  assume t: "col = 1 \<longrightarrow> (\<forall>row\<in>set rows. formatted_mac (row ! col) \<noteq> Inl TypeError)"
  let ?out = "map (\<lambda>row. projr (remap row)) rows"
  have c: "(isl (formatted_mac (row ! col)) \<and> remap row = Inr None) \<or>
         (\<exists>mac d. formatted_mac (row ! col) = Inr mac \<and> remap row = Inr (Some d) \<and>
                  map_of d ''mac'' = Some (PyStr mac))" if "row \<in> set rows" for row
    using c0 [OF that] t that by (cases "col = 1") auto
  then have "\<forall>row\<in>set rows. \<exists>y. remap row = Inr y" by blast
  then have out: "list_map remap rows = Inr ?out" by (rule list_map_total)
  have p: "remap (rows ! i) = Inr (?out ! i) \<and>
              (?out ! i = None \<longleftrightarrow> isl (formatted_mac (rows ! i ! col))) \<and>
              (\<forall>d. ?out ! i = Some d \<longrightarrow>
                 map_of d ''mac'' = Some (PyStr (projr (formatted_mac (rows ! i ! col)))))"
    if "i < length rows" for i
  proof -
    from that have "rows ! i \<in> set rows" by simp
    from c [OF this] that show ?thesis by auto
  qed
  have n: "projr (remap row) = None \<longleftrightarrow> isl (formatted_mac (row ! col))" if "row \<in> set rows" for row
    using c [OF that] by auto
  have "\<forall>d. Some d \<in> set ?out \<longrightarrow> map_of d ''mac'' \<noteq> None"
  proof (intro allI impI)
    fix d assume "Some d \<in> set ?out"
    then obtain row where "row \<in> set rows" "projr (remap row) = Some d" by auto
    with c [of row] show "map_of d ''mac'' \<noteq> None" by auto
  qed
  from group_by_spec [OF this] obtain result where
    r: "group_by ?out ''mac'' = Inr result"
      "\<forall>g ds. (g, ds) \<in> set result \<longrightarrow>
          ds \<noteq> [] \<and> ds = filter (\<lambda>d. map_of d ''mac'' = Some g) (not_None_rows ?out)"
      "mset (concat (map snd result)) = mset (not_None_rows ?out)"
    by blast
  from r(3) have "length (concat (map snd result)) = length (not_None_rows ?out)"
    by (metis size_mset)
  also have "\<dots> = length (filter (\<lambda>row. projr (remap row) \<noteq> None) rows)"
    by (rule length_not_None_rows_map)
  also have "\<dots> = length (filter (\<lambda>row. \<not> isl (formatted_mac (row ! col))) rows)"
    using n by (metis (mono_tags, lifting) filter_cong)
  finally have l: "length (concat (map snd result)) =
      length (filter (\<lambda>row. \<not> isl (formatted_mac (row ! col))) rows)" .
  from out p r l show "\<exists>out result.
             list_map remap rows = Inr out \<and> length out = length rows \<and>
             (\<forall>i<length rows. remap (rows ! i) = Inr (out ! i) \<and>
                (out ! i = None \<longleftrightarrow> isl (formatted_mac (rows ! i ! col))) \<and>
                (\<forall>d. out ! i = Some d \<longrightarrow>
                   map_of d ''mac'' = Some (PyStr (projr (formatted_mac (rows ! i ! col)))))) \<and>
             group_by_mac out = Inr result \<and>
             (\<forall>g ds. (g, ds) \<in> set result \<longrightarrow>
                ds = filter (\<lambda>d. map_of d ''mac'' = Some g) (not_None_rows out)) \<and>
             mset (concat (map snd result)) = mset (not_None_rows out) \<and>
             length (concat (map snd result)) =
               length (filter (\<lambda>row. \<not> isl (formatted_mac (row ! col))) rows)"
    unfolding group_by_mac_def
    by (intro exI [of _ ?out] exI [of _ result]) simp
qed

theorem malformed_mac_rows_skipped_witness:
  "list_all (\<lambda>row. 4 \<le> length row)
     [[PyStr ''stars1'', PyStr ''1a:2'', PyOther (20::nat), PyStr ''UV''],
      [PyStr ''stars2'', PyStr ''zz'', PyNone, PyNone],
      [PyStr ''stars3'', PyNone, PyNone, PyNone]] \<and>
   list_all (\<lambda>row. formatted_mac (row ! 1) \<noteq> Inl TypeError)
     [[PyStr ''stars1'', PyStr ''1a:2'', PyOther (20::nat), PyStr ''UV''],
      [PyStr ''stars2'', PyStr ''zz'', PyNone, PyNone],
      [PyStr ''stars3'', PyNone, PyNone, PyNone]] \<and>
   list_map tessdb_remap_info
     [[PyStr ''stars1'', PyStr ''1a:2'', PyOther (20::nat), PyStr ''UV''],
      [PyStr ''stars2'', PyStr ''zz'', PyNone, PyNone],
      [PyStr ''stars3'', PyNone, PyNone, PyNone]] =
     Inr [Some [(''mac'', PyStr ''1A:02''), (''zero_point'', PyOther 20), (''filter'', PyStr ''UV''),
                (''name'', PyStr ''stars1'')], None, None] \<and>
   group_by_mac
     [Some [(''mac'', PyStr ''1A:02''), (''zero_point'', PyOther (20::nat)), (''filter'', PyStr ''UV''),
            (''name'', PyStr ''stars1'')], None, None] =
     Inr [(PyStr ''1A:02'',
           [[(''mac'', PyStr ''1A:02''), (''zero_point'', PyOther 20), (''filter'', PyStr ''UV''),
             (''name'', PyStr ''stars1'')]])] \<and>
   formatted_mac (PyBytes ''1a:2'' :: nat pyval) = Inl TypeError \<and>
   tessdb_remap_info [PyStr ''stars4'', PyBytes ''1a:2'', PyOther (20::nat), PyStr ''UV''] =
     Inl TypeError \<and>
   zptess_remap_info [PyBytes ''1a:2'', PyOther (20::nat), PyNone, PyNone, PyNone] = Inr None"
proof -
  let ?rows = "[[PyStr ''stars1'', PyStr ''1a:2'', PyOther (20::nat), PyStr ''UV''],
      [PyStr ''stars2'', PyStr ''zz'', PyNone, PyNone],
      [PyStr ''stars3'', PyNone, PyNone, PyNone]]"
  let ?d = "[(''mac'', PyStr ''1A:02''), (''zero_point'', PyOther (20::nat)), (''filter'', PyStr ''UV''),
             (''name'', PyStr ''stars1'')]"
  let ?b = "[PyStr ''stars4'', PyBytes ''1a:2'', PyOther (20::nat), PyStr ''UV'']"
  let ?z = "[PyBytes ''1a:2'', PyOther (20::nat), PyNone, PyNone, PyNone]"
  have h1: "(tessdb_remap_info :: nat pyval list \<Rightarrow> _, 1::nat, 4::nat) \<in>
      {(zptess_tessdb_remap_info, 0, 5), (zptess_remap_info, 0, 5), (tessdb_remap_info, 1, 4)}"
    by simp
  have h2: "\<forall>row\<in>set ?rows. 4 \<le> length row" by simp
  have f1: "formatted_mac (PyStr ''1a:2'' :: nat pyval) = Inr ''1A:02''" by code_simp
  have f2: "formatted_mac (PyStr ''zz'' :: nat pyval) = Inl ValueError" by code_simp
  have f3: "formatted_mac (PyNone :: nat pyval) = Inl ValueError" by simp
  have f4: "formatted_mac (PyBytes ''1a:2'' :: nat pyval) = Inl TypeError" by simp
  have h3: "(1::nat) = 1 \<longrightarrow> (\<forall>row\<in>set ?rows. formatted_mac (row ! 1) \<noteq> Inl TypeError)"
    by (simp add: f1 f2 f3 del: formatted_mac.simps)
  have m: "list_map tessdb_remap_info ?rows = Inr [Some ?d, None, None]"
    by (simp add: tessdb_remap_info_def item_def f1 f2 f3 del: formatted_mac.simps)
  from malformed_mac_rows_skipped [OF h1 h2] h3 obtain out result where
    o: "list_map tessdb_remap_info ?rows = Inr out" "group_by_mac out = Inr result" by blast
  from o(1) m have "out = [Some ?d, None, None]" by simp
  moreover have "group_by_mac [Some ?d, None, None] = Inr [(PyStr ''1A:02'', [?d])]"
    by (simp add: group_by_mac_def group_by_def getitem_def append_to_def)
  moreover have hb: "\<forall>row\<in>set [?b]. 4 \<le> length row" by simp
  from malformed_mac_rows_skipped [OF h1 hb] f4
  have "tessdb_remap_info ?b = Inl TypeError" by simp
  moreover have hz1: "(zptess_remap_info :: nat pyval list \<Rightarrow> _, 0::nat, 5::nat) \<in>
      {(zptess_tessdb_remap_info, 0, 5), (zptess_remap_info, 0, 5), (tessdb_remap_info, 1, 4)}"
    by simp
  have hz: "\<forall>row\<in>set [?z]. 5 \<le> length row" by simp
  from malformed_mac_rows_skipped [OF hz1 hz] f4
  have "zptess_remap_info ?z = Inr None" by simp
  ultimately show ?thesis using m f1 f2 f3 f4
    by (simp del: formatted_mac.simps)
qed

section \<open>mongodb.py: properties of mongo_get_all\<close>

lemma mongo_get_all_loop_no_length_error:
  "mongo_get_all_loop names_list details_list \<noteq> Inl ListLengthMismatchError"
  by (induction names_list details_list rule: mongo_get_all_loop.induct)
    (auto simp: getitem_def split: option.splits sum.splits)

lemma mongo_get_all_loop_equal_names:
  "list_all2 (\<lambda>n d. \<exists>v. map_of n ''name'' = Some v \<and> map_of d ''name'' = Some v)
     names_list details_list \<Longrightarrow>
   mongo_get_all_loop names_list details_list =
     Inr (map2 (\<lambda>n d. AList.update ''mac'' (dict_get n ''mac'') d) names_list details_list)"
  by (induction names_list details_list rule: list_all2_induct) (auto simp: getitem_def)

lemma mongo_get_all_loop_first_mismatch:
  "length names_list = length details_list \<Longrightarrow> i < length names_list \<Longrightarrow>
   \<forall>j<i. \<exists>v. map_of (names_list ! j) ''name'' = Some v \<and> map_of (details_list ! j) ''name'' = Some v \<Longrightarrow>
   map_of (names_list ! i) ''name'' = Some a \<Longrightarrow> map_of (details_list ! i) ''name'' = Some b \<Longrightarrow>
   a \<noteq> b \<Longrightarrow>
   mongo_get_all_loop names_list details_list = Inl NamesMismatchError"
proof (induction names_list details_list arbitrary: i rule: list_induct2)
  case Nil
  then show ?case by simp
next
  case (Cons n ns d ds)
  show ?case
  proof (cases i)
    case 0
    with Cons.prems show ?thesis by (simp add: getitem_def)
  next
    case (Suc k)
    with Cons.prems have k: "k < length ns" by simp
    from Cons.prems(2) Suc have
      "\<forall>j<k. \<exists>v. map_of (ns ! j) ''name'' = Some v \<and> map_of (ds ! j) ''name'' = Some v"
      by (metis Suc_less_eq nth_Cons_Suc)
    from Cons.IH [OF k this] Cons.prems Suc
    have r: "mongo_get_all_loop ns ds = Inl NamesMismatchError" by simp
    from Cons.prems(2) Suc obtain v where
      "map_of n ''name'' = Some v" "map_of d ''name'' = Some v"
      by (metis nth_Cons_0 zero_less_Suc)
    with r show ?thesis by (simp add: getitem_def)
  qed
qed

text \<open>
  C5. \<open>mongo_get_all\<close> raises ListLengthMismatchError exactly when the two lists differ
  in length. With equal lengths: if every aligned pair has equal names, it returns the
  details list with the \<open>mac\<close> of the names entry of the same index stored in each entry
  (\<open>None\<close> when that entry has none); and it raises NamesMismatchError at the first
  aligned pair whose names differ, whatever follows.
\<close>

theorem mongo_get_all_correlates:
  "(mongo_get_all names_list details_list = Inl ListLengthMismatchError \<longleftrightarrow>
      length names_list \<noteq> length details_list) \<and>
   (length names_list = length details_list \<and>
    (\<forall>i<length names_list. \<exists>v. map_of (names_list ! i) ''name'' = Some v \<and>
         map_of (details_list ! i) ''name'' = Some v) \<longrightarrow>
      mongo_get_all names_list details_list =
        Inr (map2 (\<lambda>n d. AList.update ''mac'' (dict_get n ''mac'') d) names_list details_list)) \<and>
   (length names_list = length details_list \<and> i < length names_list \<and>
    (\<forall>j<i. \<exists>v. map_of (names_list ! j) ''name'' = Some v \<and>
         map_of (details_list ! j) ''name'' = Some v) \<and>
    map_of (names_list ! i) ''name'' = Some a \<and> map_of (details_list ! i) ''name'' = Some b \<and>
    a \<noteq> b \<longrightarrow>
      mongo_get_all names_list details_list = Inl NamesMismatchError)"
proof (intro conjI impI)
  show "mongo_get_all names_list details_list = Inl ListLengthMismatchError \<longleftrightarrow>
      length names_list \<noteq> length details_list"
    by (simp add: mongo_get_all_def mongo_get_all_loop_no_length_error)
next
  assume h: "length names_list = length details_list \<and>
    (\<forall>i<length names_list. \<exists>v. map_of (names_list ! i) ''name'' = Some v \<and>
         map_of (details_list ! i) ''name'' = Some v)"
  then have "list_all2 (\<lambda>n d. \<exists>v. map_of n ''name'' = Some v \<and> map_of d ''name'' = Some v)
     names_list details_list"
    by (simp add: list_all2_conv_all_nth)
  with h show "mongo_get_all names_list details_list =
        Inr (map2 (\<lambda>n d. AList.update ''mac'' (dict_get n ''mac'') d) names_list details_list)"
    by (simp add: mongo_get_all_def mongo_get_all_loop_equal_names)
next
  assume "length names_list = length details_list \<and> i < length names_list \<and>
    (\<forall>j<i. \<exists>v. map_of (names_list ! j) ''name'' = Some v \<and>
         map_of (details_list ! j) ''name'' = Some v) \<and>
    map_of (names_list ! i) ''name'' = Some a \<and> map_of (details_list ! i) ''name'' = Some b \<and>
    a \<noteq> b"
  then show "mongo_get_all names_list details_list = Inl NamesMismatchError"
    using mongo_get_all_loop_first_mismatch [of names_list details_list i a b]
    by (simp add: mongo_get_all_def)
qed

theorem mongo_get_all_correlates_witness:
  "mongo_get_all [[(''name'', PyStr ''stars1''), (''mac'', PyStr ''AA:BB'')], [(''name'', PyStr ''stars2'')]]
     [[(''name'', PyStr ''stars1''), (''zp'', PyOther (20::nat))],
      [(''name'', PyStr ''stars2''), (''mac'', PyStr ''old'')]] =
     Inr [[(''name'', PyStr ''stars1''), (''zp'', PyOther 20), (''mac'', PyStr ''AA:BB'')],
          [(''name'', PyStr ''stars2''), (''mac'', PyNone)]] \<and>
   mongo_get_all [[(''name'', PyStr ''stars1'')], [(''name'', PyStr ''stars2'')], []]
     [[(''name'', PyStr ''stars1'')], [(''name'', PyStr ''stars3'')], [] :: (string, nat pyval) dict] =
     Inl NamesMismatchError"
proof -
  let ?ns = "[[(''name'', PyStr ''stars1''), (''mac'', PyStr ''AA:BB'')], [(''name'', PyStr ''stars2'')]]"
  let ?ds = "[[(''name'', PyStr ''stars1''), (''zp'', PyOther (20::nat))],
      [(''name'', PyStr ''stars2''), (''mac'', PyStr ''old'')]]"
  let ?ms = "[[(''name'', PyStr ''stars1'')], [(''name'', PyStr ''stars2'')], []]"
  let ?es = "[[(''name'', PyStr ''stars1'')], [(''name'', PyStr ''stars3'')], [] :: (string, nat pyval) dict]"
  have a: "\<forall>i<length ?ns. \<exists>v. map_of (?ns ! i) ''name'' = Some v \<and> map_of (?ds ! i) ''name'' = Some v"
    by (simp add: less_Suc_eq)
  from mongo_get_all_correlates [of ?ns ?ds] a
  have 1: "mongo_get_all ?ns ?ds =
      Inr (map2 (\<lambda>n d. AList.update ''mac'' (dict_get n ''mac'') d) ?ns ?ds)" by simp
  have b: "\<forall>j<1. \<exists>v. map_of (?ms ! j) ''name'' = Some v \<and> map_of (?es ! j) ''name'' = Some v"
    by simp
  from mongo_get_all_correlates [of ?ms ?es 1 "PyStr ''stars2''" "PyStr ''stars3''"] b
  have 2: "mongo_get_all ?ms ?es = Inl NamesMismatchError" by simp
  from 1 2 show ?thesis by (simp add: dict_get_def)
qed

section \<open>mongodb.py: properties of get_item\<close>






section \<open>tessdb.py: properties of name_mac_current_history\<close>

lemma break_at_update:
  "break_at (history[i := (history ! i)\<lparr>item4 := x\<rparr>]) j = break_at history j"
proof (cases "i < length history")
  case True
  then show ?thesis
    by (cases "j = i"; cases "Suc j = i") (auto simp: break_at_def)
next
  case False
  then show ?thesis by (simp add: list_update_beyond)
qed

lemma upt_filter_head:
  "i < n \<Longrightarrow> filter P [i..<n] = (if P i then i # filter P [Suc i..<n] else filter P [Suc i..<n])"
  by (simp add: upt_conv_Cons)

lemma breaks_loop_spec:
  "breaks_loop i history break_end_tstamps break_start_tstamps =
     (map (\<lambda>j. if i \<le> j \<and> break_at history j then (history ! j)\<lparr>item4 := ''-''\<rparr>
                else history ! j) [0..<length history],
      break_end_tstamps @
        map (\<lambda>j. item3 (history ! j)) (filter (break_at history) [i..<length history - 1]),
      break_start_tstamps @
        map (\<lambda>j. item2 (history ! Suc j)) (filter (break_at history) [i..<length history - 1]))"
proof (induction i history break_end_tstamps break_start_tstamps rule: breaks_loop.induct)
  case (1 i history be bs)
  show ?case
  proof (cases "Suc i < length history")
    case False
    then have a: "\<And>j. i \<le> j \<Longrightarrow> \<not> break_at history j" by (auto simp: break_at_def)
    have "map (\<lambda>j. if i \<le> j \<and> break_at history j then (history ! j)\<lparr>item4 := ''-''\<rparr>
                else history ! j) [0..<length history] = map (\<lambda>j. history ! j) [0..<length history]"
      using a by (intro map_cong) auto
    then have m: "map (\<lambda>j. if i \<le> j \<and> break_at history j then (history ! j)\<lparr>item4 := ''-''\<rparr>
                else history ! j) [0..<length history] = history"
      by (simp add: map_nth)
    from False have e: "[i..<length history - 1] = []" by simp
    from False show ?thesis
      by (subst breaks_loop.simps) (simp only: m e if_False filter.simps list.map append_Nil2)
  next
    case True
    then have u: "i < length history - 1" by simp
    show ?thesis
    proof (cases "item3 (history ! i) \<noteq> item2 (history ! Suc i)")
      case b: True
      let ?h2 = "history[i := (history ! i)\<lparr>item4 := ''-''\<rparr>]"
      from True b have bi: "break_at history i" by (simp add: break_at_def)
      have ba: "break_at ?h2 = break_at history"
        by (rule ext) (rule break_at_update)
      from "1.IH"(1) [OF True b]
      have ih: "breaks_loop (Suc i) ?h2 (be @ [item3 (history ! i)]) (bs @ [item2 (history ! Suc i)]) =
         (map (\<lambda>j. if Suc i \<le> j \<and> break_at ?h2 j then (?h2 ! j)\<lparr>item4 := ''-''\<rparr>
                else ?h2 ! j) [0..<length ?h2],
          (be @ [item3 (history ! i)]) @
            map (\<lambda>j. item3 (?h2 ! j)) (filter (break_at ?h2) [Suc i..<length ?h2 - 1]),
          (bs @ [item2 (history ! Suc i)]) @
            map (\<lambda>j. item2 (?h2 ! Suc j)) (filter (break_at ?h2) [Suc i..<length ?h2 - 1]))" .
      have m: "map (\<lambda>j. if Suc i \<le> j \<and> break_at ?h2 j then (?h2 ! j)\<lparr>item4 := ''-''\<rparr>
                else ?h2 ! j) [0..<length ?h2] =
            map (\<lambda>j. if i \<le> j \<and> break_at history j then (history ! j)\<lparr>item4 := ''-''\<rparr>
                else history ! j) [0..<length history]"
        using bi True by (auto simp: ba nth_list_update)
      have e: "map (\<lambda>j. item3 (?h2 ! j)) (filter (break_at ?h2) [Suc i..<length ?h2 - 1]) =
               map (\<lambda>j. item3 (history ! j)) (filter (break_at history) [Suc i..<length history - 1])"
        by (auto simp: ba nth_list_update)
      have s: "map (\<lambda>j. item2 (?h2 ! Suc j)) (filter (break_at ?h2) [Suc i..<length ?h2 - 1]) =
               map (\<lambda>j. item2 (history ! Suc j)) (filter (break_at history) [Suc i..<length history - 1])"
        by (auto simp: ba nth_list_update)
      have f: "filter (break_at history) [i..<length history - 1] =
               i # filter (break_at history) [Suc i..<length history - 1]"
        using upt_filter_head [OF u, of "break_at history"] bi by simp
      from True b have "breaks_loop i history be bs =
          breaks_loop (Suc i) ?h2 (be @ [item3 (history ! i)]) (bs @ [item2 (history ! Suc i)])"
        by (subst breaks_loop.simps) simp
      also note ih
      finally show ?thesis
        by (simp only: m e s f append_assoc append_Cons append_Nil list.map)
    next
      case b: False
      from True b have bi: "\<not> break_at history i" by (simp add: break_at_def)
      from b have b': "\<not> item3 (history ! i) \<noteq> item2 (history ! Suc i)" by simp
      from "1.IH"(2) [OF True b']
      have ih: "breaks_loop (Suc i) history be bs =
         (map (\<lambda>j. if Suc i \<le> j \<and> break_at history j then (history ! j)\<lparr>item4 := ''-''\<rparr>
                else history ! j) [0..<length history],
          be @ map (\<lambda>j. item3 (history ! j)) (filter (break_at history) [Suc i..<length history - 1]),
          bs @ map (\<lambda>j. item2 (history ! Suc j)) (filter (break_at history) [Suc i..<length history - 1]))" .
      have m: "map (\<lambda>j. if Suc i \<le> j \<and> break_at history j then (history ! j)\<lparr>item4 := ''-''\<rparr>
                else history ! j) [0..<length history] =
            map (\<lambda>j. if i \<le> j \<and> break_at history j then (history ! j)\<lparr>item4 := ''-''\<rparr>
                else history ! j) [0..<length history]"
      proof (intro map_cong refl)
        fix j
        show "(if Suc i \<le> j \<and> break_at history j then (history ! j)\<lparr>item4 := ''-''\<rparr>
                else history ! j) =
              (if i \<le> j \<and> break_at history j then (history ! j)\<lparr>item4 := ''-''\<rparr>
                else history ! j)"
          using bi by (cases "j = i") auto
      qed
      have f: "filter (break_at history) [i..<length history - 1] =
               filter (break_at history) [Suc i..<length history - 1]"
        using upt_filter_head [OF u, of "break_at history"] bi by simp
      from True b have "breaks_loop i history be bs = breaks_loop (Suc i) history be bs"
        by (subst breaks_loop.simps) simp
      also note ih
      finally show ?thesis
        by (simp only: m f)
    qed
  qed
qed

lemma current_history_sql_selected:
  "name \<noteq> None \<or> mac \<noteq> None \<Longrightarrow>
   name_mac_current_history_sql name name mac connection =
     map (selected_columns name) (sort_key db_valid_since (matching_records connection name mac))"
  by (auto simp: name_mac_current_history_sql_def selected_columns_def matching_records_def)

lemma selected_columns_items [simp]:
  "item2 (selected_columns name r) = db_valid_since r"
  "item3 (selected_columns name r) = db_valid_until r"
  "item4 (selected_columns name r) = ''+''"
  "item5 (selected_columns name r) = db_valid_state r"
  by (simp_all add: selected_columns_def select_name_first_def select_mac_first_def)

lemma marked_nth:
  assumes "j < length h0"
  shows "map (\<lambda>j. if 0 \<le> j \<and> break_at h0 j then (h0 ! j)\<lparr>item4 := ''-''\<rparr> else h0 ! j)
           [0..<length h0] ! j =
         (if break_at h0 j then (h0 ! j)\<lparr>item4 := ''-''\<rparr> else h0 ! j)"
  using assms by simp

text \<open>
  C1. When a name or a MAC address is given and the table has a record for it,
  \<open>name_mac_current_history\<close> returns \<open>(history, break_end_tstamps,
  break_start_tstamps, truncated)\<close> where: the history, flags apart, is the answer of
  the query (the matching records, each once, ordered by \<open>valid_since\<close>); the flag of a
  record that has a successor is \<open>-\<close> exactly when its \<open>valid_until\<close> differs from the
  \<open>valid_since\<close> of the successor and \<open>+\<close> otherwise, and the flag of the last
  record is \<open>+\<close>; \<open>break_end_tstamps\<close> and \<open>break_start_tstamps\<close> list, in the order
  of the history, that \<open>valid_until\<close> and that \<open>valid_since\<close> of every such pair; and
  \<open>truncated\<close> holds exactly when the state of the last record is \<open>Expired\<close>.
\<close>

theorem name_mac_current_history_marks_breaks:
  assumes "name \<noteq> None \<or> mac \<noteq> None"
    and "matching_records connection name mac \<noteq> []"
  shows "\<exists>h be bs tr.
     name_mac_current_history connection name mac = Inr (h, be, bs, tr) \<and>
     map (\<lambda>x. x\<lparr>item4 := ''+''\<rparr>) h =
       map (selected_columns name)
         (sort_key db_valid_since (matching_records connection name mac)) \<and>
     mset (map (\<lambda>x. x\<lparr>item4 := ''+''\<rparr>) h) =
       mset (map (selected_columns name) (matching_records connection name mac)) \<and>
     sorted (map item2 h) \<and>
     (\<forall>j. Suc j < length h \<longrightarrow>
        (item4 (h ! j) = ''-'' \<longleftrightarrow> item3 (h ! j) \<noteq> item2 (h ! Suc j)) \<and>
        (item4 (h ! j) = ''+'' \<longleftrightarrow> item3 (h ! j) = item2 (h ! Suc j))) \<and>
     item4 (last h) = ''+'' \<and>
     be = map (\<lambda>j. item3 (h ! j))
            (filter (\<lambda>j. item3 (h ! j) \<noteq> item2 (h ! Suc j)) [0..<length h - 1]) \<and>
     bs = map (\<lambda>j. item2 (h ! Suc j))
            (filter (\<lambda>j. item3 (h ! j) \<noteq> item2 (h ! Suc j)) [0..<length h - 1]) \<and>
     (tr \<longleftrightarrow> item5 (last h) = ''Expired'')"
proof -
  define recs where "recs = sort_key db_valid_since (matching_records connection name mac)"
  define raw where "raw = map (selected_columns name) recs"
  define hist where
    "hist = map (\<lambda>j. if 0 \<le> j \<and> break_at raw j then (raw ! j)\<lparr>item4 := ''-''\<rparr> else raw ! j)
              [0..<length raw]"
  define ends where
    "ends = map (\<lambda>j. item3 (raw ! j)) (filter (break_at raw) [0..<length raw - 1])"
  define starts where
    "starts = map (\<lambda>j. item2 (raw ! Suc j)) (filter (break_at raw) [0..<length raw - 1])"
  have sql: "name_mac_current_history_sql name name mac connection = raw"
    unfolding raw_def recs_def using assms(1) by (rule current_history_sql_selected)
  have bl: "breaks_loop 0 raw [] [] = (hist, ends, starts)"
    unfolding hist_def ends_def starts_def by (simp only: breaks_loop_spec append_Nil)
  have len: "length hist = length raw" unfolding hist_def by simp
  from assms(2) have ne0: "raw \<noteq> []"
    unfolding raw_def recs_def by (metis length_0_conv length_map length_sort)
  then have ne: "hist \<noteq> []" using len by (metis length_0_conv)
  have nth: "hist ! j = (if break_at raw j then (raw ! j)\<lparr>item4 := ''-''\<rparr> else raw ! j)"
    if "j < length raw" for j
    unfolding hist_def using that by (rule marked_nth)
  have plus0: "item4 (raw ! j) = ''+''" if "j < length raw" for j
    using that unfolding raw_def by simp
  have i2: "item2 (hist ! j) = item2 (raw ! j)" if "j < length raw" for j
    by (simp add: nth [OF that])
  have i3: "item3 (hist ! j) = item3 (raw ! j)" if "j < length raw" for j
    by (simp add: nth [OF that])
  have i5: "item5 (hist ! j) = item5 (raw ! j)" if "j < length raw" for j
    by (simp add: nth [OF that])
  have i4: "item4 (hist ! j) = (if break_at raw j then ''-'' else ''+'')" if "j < length raw" for j
    using plus0 [OF that] by (simp add: nth [OF that])
  have reset: "map (\<lambda>x. x\<lparr>item4 := ''+''\<rparr>) hist = raw"
  proof (rule nth_equalityI)
    show "length (map (\<lambda>x. x\<lparr>item4 := ''+''\<rparr>) hist) = length raw" by (simp add: len)
  next
    fix j assume "j < length (map (\<lambda>x. x\<lparr>item4 := ''+''\<rparr>) hist)"
    then have j: "j < length raw" by (simp add: len)
    then have "map (\<lambda>x. x\<lparr>item4 := ''+''\<rparr>) hist ! j = (hist ! j)\<lparr>item4 := ''+''\<rparr>"
      by (simp add: len)
    also have "\<dots> = (raw ! j)\<lparr>item4 := ''+''\<rparr>"
      by (simp add: nth [OF j])
    also have "\<dots> = raw ! j"
      using plus0 [OF j] by (cases "raw ! j") simp
    finally show "map (\<lambda>x. x\<lparr>item4 := ''+''\<rparr>) hist ! j = raw ! j" .
  qed
  have ms: "mset (map (\<lambda>x. x\<lparr>item4 := ''+''\<rparr>) hist) =
       mset (map (selected_columns name) (matching_records connection name mac))"
    unfolding reset unfolding raw_def recs_def by simp
  have "map item2 hist = map item2 raw"
    by (rule nth_equalityI) (simp_all add: len i2)
  also have "\<dots> = map db_valid_since recs" unfolding raw_def by (simp add: comp_def)
  finally have srt: "sorted (map item2 hist)" unfolding recs_def by (simp only: sorted_sort_key)
  have br: "break_at raw j \<longleftrightarrow> item3 (hist ! j) \<noteq> item2 (hist ! Suc j)" if "Suc j < length hist" for j
  proof -
    from that have a: "Suc j < length raw" "j < length raw" by (simp_all add: len)
    show ?thesis
      by (simp add: i3 [OF a(2)] i2 [OF a(1)] break_at_def a(1))
  qed
  have flags: "(item4 (hist ! j) = ''-'' \<longleftrightarrow> item3 (hist ! j) \<noteq> item2 (hist ! Suc j)) \<and>
        (item4 (hist ! j) = ''+'' \<longleftrightarrow> item3 (hist ! j) = item2 (hist ! Suc j))"
    if "Suc j < length hist" for j
  proof -
    from that have a: "j < length raw" by (simp add: len)
    from br [OF that] i4 [OF a] show ?thesis by (cases "break_at raw j") simp_all
  qed
  have lst: "last hist = hist ! (length raw - 1)"
    using ne by (simp add: last_conv_nth len)
  from ne0 have l1: "length raw - 1 < length raw" by simp
  have nb: "\<not> break_at raw (length raw - 1)" using ne0 by (simp add: break_at_def)
  have lastflag: "item4 (last hist) = ''+''"
    using i4 [OF l1] nb by (simp add: lst)
  have flt: "filter (\<lambda>j. item3 (hist ! j) \<noteq> item2 (hist ! Suc j)) [0..<length hist - 1] =
             filter (break_at raw) [0..<length raw - 1]"
    unfolding len
  proof (rule filter_cong [OF refl])
    fix j assume "j \<in> set [0..<length raw - 1]"
    then have "Suc j < length hist" by (auto simp: len)
    from br [OF this] show "(item3 (hist ! j) \<noteq> item2 (hist ! Suc j)) = break_at raw j" by simp
  qed
  have be: "ends = map (\<lambda>j. item3 (hist ! j))
            (filter (\<lambda>j. item3 (hist ! j) \<noteq> item2 (hist ! Suc j)) [0..<length hist - 1])"
    unfolding flt ends_def
  proof (rule map_cong [OF refl])
    fix j assume "j \<in> set (filter (break_at raw) [0..<length raw - 1])"
    then have "j < length raw" by auto
    from i3 [OF this] show "item3 (raw ! j) = item3 (hist ! j)" by simp
  qed
  have bs: "starts = map (\<lambda>j. item2 (hist ! Suc j))
            (filter (\<lambda>j. item3 (hist ! j) \<noteq> item2 (hist ! Suc j)) [0..<length hist - 1])"
    unfolding flt starts_def
  proof (rule map_cong [OF refl])
    fix j assume "j \<in> set (filter (break_at raw) [0..<length raw - 1])"
    then have "Suc j < length raw" by auto
    from i2 [OF this] show "item2 (raw ! Suc j) = item2 (hist ! Suc j)" by simp
  qed
  have res: "name_mac_current_history connection name mac =
      Inr (hist, ends, starts, item5 (last hist) = ''Expired'')"
    using assms(1) ne by (simp add: name_mac_current_history_def sql bl)
  have reset': "map (\<lambda>x. x\<lparr>item4 := ''+''\<rparr>) hist =
       map (selected_columns name)
         (sort_key db_valid_since (matching_records connection name mac))"
    unfolding reset unfolding raw_def recs_def ..
  from res reset' ms srt flags lastflag be bs show ?thesis
    by (intro exI [of _ hist] exI [of _ ends] exI [of _ starts]
          exI [of _ "item5 (last hist) = ''Expired''"]) blast
qed

theorem name_mac_current_history_marks_breaks_witness:
  "matching_records
     [\<lparr>db_name = ''stars1'', db_mac_address = ''CC'', db_valid_since = ''2022'',
        db_valid_until = ''2999'', db_valid_state = ''Current''\<rparr>,
      \<lparr>db_name = ''stars2'', db_mac_address = ''DD'', db_valid_since = ''2018'',
        db_valid_until = ''2999'', db_valid_state = ''Current''\<rparr>,
      \<lparr>db_name = ''stars1'', db_mac_address = ''AA'', db_valid_since = ''2019'',
        db_valid_until = ''2020'', db_valid_state = ''Expired''\<rparr>,
      \<lparr>db_name = ''stars1'', db_mac_address = ''BB'', db_valid_since = ''2021'',
        db_valid_until = ''2022'', db_valid_state = ''Expired''\<rparr>]
     (Some ''stars1'') None \<noteq> [] \<and>
   name_mac_current_history
     [\<lparr>db_name = ''stars1'', db_mac_address = ''CC'', db_valid_since = ''2022'',
        db_valid_until = ''2999'', db_valid_state = ''Current''\<rparr>,
      \<lparr>db_name = ''stars2'', db_mac_address = ''DD'', db_valid_since = ''2018'',
        db_valid_until = ''2999'', db_valid_state = ''Current''\<rparr>,
      \<lparr>db_name = ''stars1'', db_mac_address = ''AA'', db_valid_since = ''2019'',
        db_valid_until = ''2020'', db_valid_state = ''Expired''\<rparr>,
      \<lparr>db_name = ''stars1'', db_mac_address = ''BB'', db_valid_since = ''2021'',
        db_valid_until = ''2022'', db_valid_state = ''Expired''\<rparr>]
     (Some ''stars1'') None =
   Inr ([\<lparr>item0 = ''stars1'', item1 = ''AA'', item2 = ''2019'', item3 = ''2020'',
           item4 = ''-'', item5 = ''Expired''\<rparr>,
         \<lparr>item0 = ''stars1'', item1 = ''BB'', item2 = ''2021'', item3 = ''2022'',
           item4 = ''+'', item5 = ''Expired''\<rparr>,
         \<lparr>item0 = ''stars1'', item1 = ''CC'', item2 = ''2022'', item3 = ''2999'',
           item4 = ''+'', item5 = ''Current''\<rparr>],
        [''2020''], [''2021''], False)"
proof -
  let ?tbl = "[\<lparr>db_name = ''stars1'', db_mac_address = ''CC'', db_valid_since = ''2022'',
        db_valid_until = ''2999'', db_valid_state = ''Current''\<rparr>,
      \<lparr>db_name = ''stars2'', db_mac_address = ''DD'', db_valid_since = ''2018'',
        db_valid_until = ''2999'', db_valid_state = ''Current''\<rparr>,
      \<lparr>db_name = ''stars1'', db_mac_address = ''AA'', db_valid_since = ''2019'',
        db_valid_until = ''2020'', db_valid_state = ''Expired''\<rparr>,
      \<lparr>db_name = ''stars1'', db_mac_address = ''BB'', db_valid_since = ''2021'',
        db_valid_until = ''2022'', db_valid_state = ''Expired''\<rparr>]"
  have a: "Some ''stars1'' \<noteq> None \<or> (None :: string option) \<noteq> None" by simp
  have b: "matching_records ?tbl (Some ''stars1'') None \<noteq> []"
    by (simp add: matching_records_def)
  from name_mac_current_history_marks_breaks [OF a b] obtain h be bs tr where
    r: "name_mac_current_history ?tbl (Some ''stars1'') None = Inr (h, be, bs, tr)" by blast
  have "name_mac_current_history ?tbl (Some ''stars1'') None =
   Inr ([\<lparr>item0 = ''stars1'', item1 = ''AA'', item2 = ''2019'', item3 = ''2020'',
           item4 = ''-'', item5 = ''Expired''\<rparr>,
         \<lparr>item0 = ''stars1'', item1 = ''BB'', item2 = ''2021'', item3 = ''2022'',
           item4 = ''+'', item5 = ''Expired''\<rparr>,
         \<lparr>item0 = ''stars1'', item1 = ''CC'', item2 = ''2022'', item3 = ''2999'',
           item4 = ''+'', item5 = ''Current''\<rparr>],
        [''2020''], [''2021''], False)"
    by code_simp
  with r b show ?thesis by simp
qed

text \<open>
  When the table has no record for the name or the MAC address, the history is empty and
  \<open>history[-1]\<close> raises IndexError: nothing is returned.
\<close>

theorem name_mac_current_history_no_record:
  "name_mac_current_history [] (Some ''stars1'') None = Inl IndexError \<and>
   name_mac_current_history
     [\<lparr>db_name = ''stars2'', db_mac_address = ''DD'', db_valid_since = ''2018'',
        db_valid_until = ''2999'', db_valid_state = ''Current''\<rparr>]
     (Some ''stars1'') None = Inl IndexError \<and>
   name_mac_current_history
     [\<lparr>db_name = ''stars2'', db_mac_address = ''DD'', db_valid_since = ''2018'',
        db_valid_until = ''2999'', db_valid_state = ''Current''\<rparr>]
     None (Some ''AA'') = Inl IndexError"
  by code_simp

section \<open>tessdb.py: termination of the loops over adjacent records\<close>

lemma previous_fuel_loop:
  "previous_related_fuel k connection name tstamp history queries = Some r \<Longrightarrow>
   previous_related_loop connection name tstamp history queries = Some r"
proof (induction k arbitrary: tstamp history queries)
  case 0
  then show ?case by simp
next
  case (Suc k)
  show ?case
    using Suc.prems Suc.IH
    by (subst previous_related_loop.simps) (auto simp: Let_def split: if_splits)
qed

lemma next_fuel_loop:
  "next_related_fuel k connection name tstamp history queries = Some r \<Longrightarrow>
   next_related_loop connection name tstamp history queries = Some r"
proof (induction k arbitrary: tstamp history queries)
  case 0
  then show ?case by simp
next
  case (Suc k)
  show ?case
    using Suc.prems Suc.IH
    by (subst next_related_loop.simps) (auto simp: Let_def split: if_splits)
qed

lemma previous_fuel_queries:
  "previous_related_fuel k connection name tstamp history queries = Some (h, c, q) \<Longrightarrow>
   q \<le> queries + k"
proof (induction k arbitrary: tstamp history queries)
  case 0
  then show ?case by simp
next
  case (Suc k)
  from Suc.prems Suc.IH show ?case
    by (fastforce simp: Let_def split: if_splits)
qed

lemma next_fuel_queries:
  "next_related_fuel k connection name tstamp history queries = Some (h, c, q) \<Longrightarrow>
   q \<le> queries + k"
proof (induction k arbitrary: tstamp history queries)
  case 0
  then show ?case by simp
next
  case (Suc k)
  from Suc.prems Suc.IH show ?case
    by (fastforce simp: Let_def split: if_splits)
qed

lemma previous_sql_nonempty:
  "name_mac_previous_related_history_sql name tstamp connection \<noteq> [] \<Longrightarrow>
   tstamp \<in> db_valid_until ` set connection"
proof -
  assume a: "name_mac_previous_related_history_sql name tstamp connection \<noteq> []"
  have "filter (\<lambda>r. db_valid_until r = tstamp) connection \<noteq> []"
  proof
    assume "filter (\<lambda>r. db_valid_until r = tstamp) connection = []"
    then have "name_mac_previous_related_history_sql name tstamp connection = []"
      by (simp add: name_mac_previous_related_history_sql_def)
    with a show False by simp
  qed
  then obtain r where "r \<in> set connection" "db_valid_until r = tstamp"
    by (auto simp: filter_empty_conv)
  then show ?thesis by auto
qed

lemma next_sql_nonempty:
  "name_mac_next_related_history_sql name tstamp connection \<noteq> [] \<Longrightarrow>
   tstamp \<in> db_valid_since ` set connection"
proof -
  assume a: "name_mac_next_related_history_sql name tstamp connection \<noteq> []"
  have "filter (\<lambda>r. db_valid_since r = tstamp) connection \<noteq> []"
  proof
    assume "filter (\<lambda>r. db_valid_since r = tstamp) connection = []"
    then have "name_mac_next_related_history_sql name tstamp connection = []"
      by (simp add: name_mac_next_related_history_sql_def)
    with a show False by simp
  qed
  then obtain r where "r \<in> set connection" "db_valid_since r = tstamp"
    by (auto simp: filter_empty_conv)
  then show ?thesis by auto
qed

lemma previous_fuel_None:
  "previous_related_fuel k connection name tstamp history queries = None \<Longrightarrow>
   length (previous_timestamps k connection name tstamp) = k \<and>
   set (previous_timestamps k connection name tstamp) \<subseteq> db_valid_until ` set connection"
proof (induction k arbitrary: tstamp history queries)
  case 0
  then show ?case by simp
next
  case (Suc k)
  let ?f = "name_mac_previous_related_history_sql name tstamp connection"
  from Suc.prems have "length ?f \<noteq> 0" and "\<not> length ?f > 1"
    by (auto simp: Let_def split: if_splits)
  then have l: "length ?f = 1" by linarith
  with Suc.prems have "previous_related_fuel k connection name (item2 (?f ! 0))
      (history @ ?f) (Suc queries) = None"
    by (auto simp: Let_def split: if_splits)
  from Suc.IH [OF this] have ih:
    "length (previous_timestamps k connection name (item2 (?f ! 0))) = k"
    "set (previous_timestamps k connection name (item2 (?f ! 0))) \<subseteq> db_valid_until ` set connection"
    by simp_all
  from l have "?f \<noteq> []" by auto
  then have "tstamp \<in> db_valid_until ` set connection" by (rule previous_sql_nonempty)
  with ih l show ?case by (simp add: Let_def)
qed

lemma next_fuel_None:
  "next_related_fuel k connection name tstamp history queries = None \<Longrightarrow>
   length (next_timestamps k connection name tstamp) = k \<and>
   set (next_timestamps k connection name tstamp) \<subseteq> db_valid_since ` set connection"
proof (induction k arbitrary: tstamp history queries)
  case 0
  then show ?case by simp
next
  case (Suc k)
  let ?f = "name_mac_next_related_history_sql name tstamp connection"
  from Suc.prems have "length ?f \<noteq> 0" and "\<not> length ?f > 1"
    by (auto simp: Let_def split: if_splits)
  then have l: "length ?f = 1" by linarith
  with Suc.prems have "next_related_fuel k connection name (item3 (?f ! 0))
      (history @ ?f) (Suc queries) = None"
    by (auto simp: Let_def split: if_splits)
  from Suc.IH [OF this] have ih:
    "length (next_timestamps k connection name (item3 (?f ! 0))) = k"
    "set (next_timestamps k connection name (item3 (?f ! 0))) \<subseteq> db_valid_since ` set connection"
    by simp_all
  from l have "?f \<noteq> []" by auto
  then have "tstamp \<in> db_valid_since ` set connection" by (rule next_sql_nonempty)
  with ih l show ?case by (simp add: Let_def)
qed

lemma distinct_within_image:
  assumes "distinct ts" and "set ts \<subseteq> f ` set xs"
  shows "length ts \<le> length xs"
proof -
  from assms(1) have "length ts = card (set ts)" by (simp add: distinct_card)
  also from assms(2) have "\<dots> \<le> card (f ` set xs)" by (simp add: card_mono)
  also have "\<dots> \<le> card (set xs)" by (simp add: card_image_le)
  also have "\<dots> \<le> length xs" by (rule card_length)
  finally show ?thesis .
qed

lemma previous_fuel_returns:
  assumes "distinct (previous_timestamps (Suc (length connection)) connection name tstamp)"
  shows "\<exists>r. previous_related_fuel (Suc (length connection)) connection name tstamp history queries
           = Some r"
proof (cases "previous_related_fuel (Suc (length connection)) connection name tstamp history queries")
  case (Some r)
  then show ?thesis by blast
next
  case None
  from previous_fuel_None [OF None] assms
  have "Suc (length connection) \<le> length connection"
    using distinct_within_image [of "previous_timestamps (Suc (length connection)) connection name tstamp"
        db_valid_until connection]
    by (simp del: previous_timestamps.simps)
  then show ?thesis by simp
qed

lemma next_fuel_returns:
  assumes "distinct (next_timestamps (Suc (length connection)) connection name tstamp)"
  shows "\<exists>r. next_related_fuel (Suc (length connection)) connection name tstamp history queries
           = Some r"
proof (cases "next_related_fuel (Suc (length connection)) connection name tstamp history queries")
  case (Some r)
  then show ?thesis by blast
next
  case None
  from next_fuel_None [OF None] assms
  have "Suc (length connection) \<le> length connection"
    using distinct_within_image [of "next_timestamps (Suc (length connection)) connection name tstamp"
        db_valid_since connection]
    by (simp del: next_timestamps.simps)
  then show ?thesis by simp
qed

text \<open>
  C2. When the time stamps that a loop asks for do not repeat (among the first
  \<open>n + 1\<close> of them, \<open>n\<close> the number of records of the table), the loop is left after
  at most \<open>n + 1\<close> queries and the function returns, for every table, start, name and
  MAC address.
\<close>

theorem related_history_loops_return:
  "(distinct (previous_timestamps (Suc (length connection)) connection name start_tstamp) \<longrightarrow>
      (\<exists>history complicated queries.
         previous_related_loop connection name start_tstamp [] 0 =
           Some (history, complicated, queries) \<and>
         queries \<le> Suc (length connection) \<and>
         name_mac_previous_related_history connection start_tstamp name mac =
           Some (rev history, complicated))) \<and>
   (distinct (next_timestamps (Suc (length connection)) connection name end_tstamp) \<longrightarrow>
      (\<exists>history complicated queries.
         next_related_loop connection name end_tstamp [] 0 =
           Some (history, complicated, queries) \<and>
         queries \<le> Suc (length connection) \<and>
         name_mac_next_related_history connection end_tstamp name mac =
           Some (history, complicated)))"
proof (intro conjI impI)
  assume "distinct (previous_timestamps (Suc (length connection)) connection name start_tstamp)"
  from previous_fuel_returns [OF this, of "[]" 0] obtain h c q where
    f: "previous_related_fuel (Suc (length connection)) connection name start_tstamp [] 0 =
          Some (h, c, q)"
    by (metis prod_cases3)
  from previous_fuel_queries [OF f] have q: "q \<le> Suc (length connection)" by simp
  from previous_fuel_loop [OF f] have l:
    "previous_related_loop connection name start_tstamp [] 0 = Some (h, c, q)" .
  then have "name_mac_previous_related_history connection start_tstamp name mac = Some (rev h, c)"
    by (simp add: name_mac_previous_related_history_def)
  with l q show "\<exists>history complicated queries.
         previous_related_loop connection name start_tstamp [] 0 =
           Some (history, complicated, queries) \<and>
         queries \<le> Suc (length connection) \<and>
         name_mac_previous_related_history connection start_tstamp name mac =
           Some (rev history, complicated)" by blast
next
  assume "distinct (next_timestamps (Suc (length connection)) connection name end_tstamp)"
  from next_fuel_returns [OF this, of "[]" 0] obtain h c q where
    f: "next_related_fuel (Suc (length connection)) connection name end_tstamp [] 0 =
          Some (h, c, q)"
    by (metis prod_cases3)
  from next_fuel_queries [OF f] have q: "q \<le> Suc (length connection)" by simp
  from next_fuel_loop [OF f] have l:
    "next_related_loop connection name end_tstamp [] 0 = Some (h, c, q)" .
  then have "name_mac_next_related_history connection end_tstamp name mac = Some (h, c)"
    by (simp add: name_mac_next_related_history_def)
  with l q show "\<exists>history complicated queries.
         next_related_loop connection name end_tstamp [] 0 =
           Some (history, complicated, queries) \<and>
         queries \<le> Suc (length connection) \<and>
         name_mac_next_related_history connection end_tstamp name mac =
           Some (history, complicated)" by blast
qed

theorem related_history_loops_return_witness:
  "distinct (previous_timestamps (Suc (length
     [\<lparr>db_name = ''stars1'', db_mac_address = ''AA'', db_valid_since = ''2019'',
        db_valid_until = ''2020'', db_valid_state = ''Expired''\<rparr>,
      \<lparr>db_name = ''stars1'', db_mac_address = ''BB'', db_valid_since = ''2020'',
        db_valid_until = ''2021'', db_valid_state = ''Current''\<rparr>])) [\<lparr>db_name = ''stars1'', db_mac_address = ''AA'', db_valid_since = ''2019'',
        db_valid_until = ''2020'', db_valid_state = ''Expired''\<rparr>,
      \<lparr>db_name = ''stars1'', db_mac_address = ''BB'', db_valid_since = ''2020'',
        db_valid_until = ''2021'', db_valid_state = ''Current''\<rparr>] (Some ''stars1'') ''2021'') \<and>
   name_mac_previous_related_history
     [\<lparr>db_name = ''stars1'', db_mac_address = ''AA'', db_valid_since = ''2019'',
        db_valid_until = ''2020'', db_valid_state = ''Expired''\<rparr>,
      \<lparr>db_name = ''stars1'', db_mac_address = ''BB'', db_valid_since = ''2020'',
        db_valid_until = ''2021'', db_valid_state = ''Current''\<rparr>] ''2021'' (Some ''stars1'') None =
     Some ([\<lparr>item0 = ''stars1'', item1 = ''AA'', item2 = ''2019'', item3 = ''2020'',
           item4 = ''+'', item5 = ''Expired''\<rparr>,
         \<lparr>item0 = ''stars1'', item1 = ''BB'', item2 = ''2020'', item3 = ''2021'',
           item4 = ''+'', item5 = ''Current''\<rparr>], False) \<and>
   distinct (next_timestamps (Suc (length
     [\<lparr>db_name = ''stars1'', db_mac_address = ''AA'', db_valid_since = ''2019'',
        db_valid_until = ''2020'', db_valid_state = ''Expired''\<rparr>,
      \<lparr>db_name = ''stars1'', db_mac_address = ''BB'', db_valid_since = ''2020'',
        db_valid_until = ''2021'', db_valid_state = ''Current''\<rparr>])) [\<lparr>db_name = ''stars1'', db_mac_address = ''AA'', db_valid_since = ''2019'',
        db_valid_until = ''2020'', db_valid_state = ''Expired''\<rparr>,
      \<lparr>db_name = ''stars1'', db_mac_address = ''BB'', db_valid_since = ''2020'',
        db_valid_until = ''2021'', db_valid_state = ''Current''\<rparr>] (Some ''stars1'') ''2019'') \<and>
   name_mac_next_related_history
     [\<lparr>db_name = ''stars1'', db_mac_address = ''AA'', db_valid_since = ''2019'',
        db_valid_until = ''2020'', db_valid_state = ''Expired''\<rparr>,
      \<lparr>db_name = ''stars1'', db_mac_address = ''BB'', db_valid_since = ''2020'',
        db_valid_until = ''2021'', db_valid_state = ''Current''\<rparr>] ''2019'' (Some ''stars1'') None =
     Some ([\<lparr>item0 = ''stars1'', item1 = ''AA'', item2 = ''2019'', item3 = ''2020'',
           item4 = ''+'', item5 = ''Expired''\<rparr>,
         \<lparr>item0 = ''stars1'', item1 = ''BB'', item2 = ''2020'', item3 = ''2021'',
           item4 = ''+'', item5 = ''Current''\<rparr>], False)"
proof -
  let ?tbl = "[\<lparr>db_name = ''stars1'', db_mac_address = ''AA'', db_valid_since = ''2019'',
        db_valid_until = ''2020'', db_valid_state = ''Expired''\<rparr>,
      \<lparr>db_name = ''stars1'', db_mac_address = ''BB'', db_valid_since = ''2020'',
        db_valid_until = ''2021'', db_valid_state = ''Current''\<rparr>]"
  let ?h = "[\<lparr>item0 = ''stars1'', item1 = ''AA'', item2 = ''2019'', item3 = ''2020'',
           item4 = ''+'', item5 = ''Expired''\<rparr>,
         \<lparr>item0 = ''stars1'', item1 = ''BB'', item2 = ''2020'', item3 = ''2021'',
           item4 = ''+'', item5 = ''Current''\<rparr>]"
  have d1: "distinct (previous_timestamps (Suc (length ?tbl)) ?tbl (Some ''stars1'') ''2021'')"
    by code_simp
  have d2: "distinct (next_timestamps (Suc (length ?tbl)) ?tbl (Some ''stars1'') ''2019'')"
    by code_simp
  have "previous_related_fuel (Suc (Suc (Suc 0))) ?tbl (Some ''stars1'') ''2021'' [] 0 =
      Some (rev ?h, False, 3)"
    by code_simp
  then have l1: "previous_related_loop ?tbl (Some ''stars1'') ''2021'' [] 0 = Some (rev ?h, False, 3)"
    by (rule previous_fuel_loop)
  have "next_related_fuel (Suc (Suc (Suc 0))) ?tbl (Some ''stars1'') ''2019'' [] 0 =
      Some (?h, False, 3)"
    by code_simp
  then have l2: "next_related_loop ?tbl (Some ''stars1'') ''2019'' [] 0 = Some (?h, False, 3)"
    by (rule next_fuel_loop)
  from related_history_loops_return [of ?tbl "Some ''stars1''" "''2021''" None "''2019''"] d1 d2
  obtain h1 c1 q1 h2 c2 q2 where
    r: "previous_related_loop ?tbl (Some ''stars1'') ''2021'' [] 0 = Some (h1, c1, q1)"
       "name_mac_previous_related_history ?tbl ''2021'' (Some ''stars1'') None = Some (rev h1, c1)"
       "next_related_loop ?tbl (Some ''stars1'') ''2019'' [] 0 = Some (h2, c2, q2)"
       "name_mac_next_related_history ?tbl ''2019'' (Some ''stars1'') None = Some (h2, c2)"
    by blast
  from r(1) l1 have "h1 = rev ?h \<and> c1 = False" by simp
  moreover from r(3) l2 have "h2 = ?h \<and> c2 = False" by simp
  ultimately show ?thesis using r(2) r(4) d1 d2 by simp
qed

lemma previous_loop_diverges:
  assumes "name_mac_previous_related_history_sql name t connection = [x]" and "item2 x = t"
  shows "previous_related_loop connection name t history queries = None"
proof -
  have never: "\<not> (c = connection \<and> n = name \<and> t' = t)"
    if a: "previous_related_loop c n t' h q = Some y" for c n t' h q y
  proof (rule previous_related_loop.raw_induct
      [where P = "\<lambda>c n t' h q y. \<not> (c = connection \<and> n = name \<and> t' = t)", OF _ a])
    fix f c n t' h q y
    assume ih: "\<And>c n t' h q y. f c n t' h q = Some y \<Longrightarrow>
                  \<not> (c = connection \<and> n = name \<and> t' = t)"
      and fy: "(let fragment = name_mac_previous_related_history_sql n t' c;
                    L = length fragment
                in if L = 0 then Some (h, False, Suc q)
                   else if 1 < L then Some (h @ fragment, True, Suc q)
                   else f c n (item2 (fragment ! 0)) (h @ fragment) (Suc q)) = Some y"
    show "\<not> (c = connection \<and> n = name \<and> t' = t)"
    proof
      assume "c = connection \<and> n = name \<and> t' = t"
      with fy assms have "f connection name t (h @ [x]) (Suc q) = Some y"
        by (simp add: Let_def)
      from ih [OF this] show False by simp
    qed
  qed
  show ?thesis
  proof (cases "previous_related_loop connection name t history queries")
    case None
    then show ?thesis .
  next
    case (Some y)
    from never [OF Some] show ?thesis by simp
  qed
qed

lemma next_loop_diverges:
  assumes "name_mac_next_related_history_sql name t connection = [x]" and "item3 x = t"
  shows "next_related_loop connection name t history queries = None"
proof -
  have never: "\<not> (c = connection \<and> n = name \<and> t' = t)"
    if a: "next_related_loop c n t' h q = Some y" for c n t' h q y
  proof (rule next_related_loop.raw_induct
      [where P = "\<lambda>c n t' h q y. \<not> (c = connection \<and> n = name \<and> t' = t)", OF _ a])
    fix f c n t' h q y
    assume ih: "\<And>c n t' h q y. f c n t' h q = Some y \<Longrightarrow>
                  \<not> (c = connection \<and> n = name \<and> t' = t)"
      and fy: "(let fragment = name_mac_next_related_history_sql n t' c;
                    L = length fragment
                in if L = 0 then Some (h, False, Suc q)
                   else if 1 < L then Some (h @ fragment, True, Suc q)
                   else f c n (item3 (fragment ! 0)) (h @ fragment) (Suc q)) = Some y"
    show "\<not> (c = connection \<and> n = name \<and> t' = t)"
    proof
      assume "c = connection \<and> n = name \<and> t' = t"
      with fy assms have "f connection name t (h @ [x]) (Suc q) = Some y"
        by (simp add: Let_def)
      from ih [OF this] show False by simp
    qed
  qed
  show ?thesis
  proof (cases "next_related_loop connection name t history queries")
    case None
    then show ?thesis .
  next
    case (Some y)
    from never [OF Some] show ?thesis by simp
  qed
qed

text \<open>
  A record whose \<open>valid_since\<close> and \<open>valid_until\<close> are the same time stamp is found
  again by every query that follows it: started at that time stamp, neither loop is ever
  left and neither function returns.
\<close>

theorem related_history_loops_run_forever:
  "name_mac_previous_related_history
     [\<lparr>db_name = ''stars1'', db_mac_address = ''AA'', db_valid_since = ''2020'',
        db_valid_until = ''2020'', db_valid_state = ''Current''\<rparr>] ''2020'' (Some ''stars1'') None = None \<and>
   name_mac_next_related_history
     [\<lparr>db_name = ''stars1'', db_mac_address = ''AA'', db_valid_since = ''2020'',
        db_valid_until = ''2020'', db_valid_state = ''Current''\<rparr>] ''2020'' (Some ''stars1'') None = None"
proof -
  let ?tbl = "[\<lparr>db_name = ''stars1'', db_mac_address = ''AA'', db_valid_since = ''2020'',
        db_valid_until = ''2020'', db_valid_state = ''Current''\<rparr>]"
  let ?x = "\<lparr>item0 = ''stars1'', item1 = ''AA'', item2 = ''2020'', item3 = ''2020'',
           item4 = ''+'', item5 = ''Current''\<rparr>"
  have p: "name_mac_previous_related_history_sql (Some ''stars1'') ''2020'' ?tbl = [?x]"
    by (simp add: name_mac_previous_related_history_sql_def select_name_first_def)
  have n: "name_mac_next_related_history_sql (Some ''stars1'') ''2020'' ?tbl = [?x]"
    by (simp add: name_mac_next_related_history_sql_def select_name_first_def)
  have "previous_related_loop ?tbl (Some ''stars1'') ''2020'' [] 0 = None"
    by (rule previous_loop_diverges [OF p]) simp
  moreover have "next_related_loop ?tbl (Some ''stars1'') ''2020'' [] 0 = None"
    by (rule next_loop_diverges [OF n]) simp
  ultimately show ?thesis
    by (simp add: name_mac_previous_related_history_def name_mac_next_related_history_def)
qed

section \<open>tessdb.py: properties of photometers_complicated\<close>

lemma not_easy_rows:
  "row \<in> set (photometers_not_easy connection) \<Longrightarrow> \<exists>r. row = row_dict r"
  by (auto simp: photometers_not_easy_def Let_def)

lemma row_dict_keys:
  "map fst (row_dict r) = [''name'', ''mac'', ''valid_since'', ''valid_until'', ''valid_state'']"
  by (simp add: row_dict_def)

lemma row_dict_zip:
  "zip [''name'', ''mac'', ''valid_since'', ''valid_until'', ''valid_state'']
     (map snd (row_dict r)) = row_dict r"
  by (simp add: row_dict_def)

lemma not_easy_keys:
  assumes "photometers_not_easy connection \<noteq> []"
  shows "map fst (photometers_not_easy connection ! 0) =
           [''name'', ''mac'', ''valid_since'', ''valid_until'', ''valid_state'']"
proof -
  from assms have "photometers_not_easy connection ! 0 \<in> set (photometers_not_easy connection)"
    by simp
  then obtain r where "photometers_not_easy connection ! 0 = row_dict r"
    using not_easy_rows by blast
  then show ?thesis by (simp add: row_dict_keys)
qed

lemma not_easy_zip:
  assumes "row \<in> set (photometers_not_easy connection)"
  shows "zip [''name'', ''mac'', ''valid_since'', ''valid_until'', ''valid_state'']
           (map snd row) = row"
proof -
  from assms obtain r where "row = row_dict r" using not_easy_rows by blast
  then show ?thesis by (simp add: row_dict_zip)
qed

text \<open>
  C3. When \<open>photometers_not_easy\<close> has an entry and \<open>photometers_repaired\<close> and
  \<open>photometers_renamed\<close> return, \<open>photometers_complicated\<close> returns exactly the
  entries of \<open>photometers_not_easy\<close> whose tuple of values is neither the tuple of a
  repaired entry nor the tuple of a renamed entry, and no tuple of values twice.
\<close>

theorem photometers_complicated_difference:
  assumes "photometers_not_easy connection \<noteq> []"
    and "photometers_repaired connection = Some (Inr only_repaired)"
    and "photometers_renamed connection = Some (Inr only_renamed)"
  shows "\<exists>output.
     photometers_complicated connection = Some (Inr output) \<and>
     set output =
       {row \<in> set (photometers_not_easy connection).
          map snd row \<notin> map snd ` set only_repaired \<and>
          map snd row \<notin> map snd ` set only_renamed} \<and>
     distinct (map (map snd) output) \<and> distinct output"
proof -
  define total where "total = photometers_not_easy connection"
  define keys where
    "keys = [''name'', ''mac'', ''valid_since'', ''valid_until'', ''valid_state'']"
  define excluded where
    "excluded = (\<lambda>t. t \<notin> set (map (map snd) only_repaired) \<and>
                     t \<notin> set (map (map snd) only_renamed))"
  define difference where
    "difference = remdups (filter excluded (map (map snd) total))"
  define rows_out where "rows_out = map (\<lambda>values. zip keys values) difference"
  have k: "map fst (total ! 0) = keys"
    unfolding total_def keys_def using assms(1) by (rule not_easy_keys)
  have z: "zip keys (map snd row) = row" if "row \<in> set total" for row
    using that unfolding total_def keys_def by (rule not_easy_zip)
  have res: "photometers_complicated connection = Some (Inr rows_out)"
    using assms
    by (simp add: photometers_complicated_def Let_def k total_def [symmetric]
          rows_out_def difference_def excluded_def)
  have d: "set difference = {map snd row | row. row \<in> set total \<and> excluded (map snd row)}"
    unfolding difference_def by auto
  have so: "set rows_out = {row \<in> set total. excluded (map snd row)}"
  proof
    show "set rows_out \<subseteq> {row \<in> set total. excluded (map snd row)}"
    proof
      fix x assume "x \<in> set rows_out"
      then obtain v where v: "v \<in> set difference" "x = zip keys v"
        unfolding rows_out_def by auto
      from v(1) d obtain row where row: "row \<in> set total" "excluded (map snd row)" "v = map snd row"
        by auto
      with v(2) z [OF row(1)] show "x \<in> {row \<in> set total. excluded (map snd row)}" by simp
    qed
  next
    show "{row \<in> set total. excluded (map snd row)} \<subseteq> set rows_out"
    proof
      fix x assume "x \<in> {row \<in> set total. excluded (map snd row)}"
      then have x: "x \<in> set total" "excluded (map snd x)" by simp_all
      with d have "map snd x \<in> set difference" by auto
      then have "zip keys (map snd x) \<in> set rows_out" unfolding rows_out_def by simp
      with z [OF x(1)] show "x \<in> set rows_out" by simp
    qed
  qed
  have ms: "map (map snd) rows_out = difference"
  proof -
    have "map snd (zip keys v) = v" if "v \<in> set difference" for v
    proof -
      from that d obtain row where row: "row \<in> set total" "v = map snd row" by auto
      from z [OF row(1)] row(2) show ?thesis by simp
    qed
    then show ?thesis unfolding rows_out_def by (simp add: map_idI)
  qed
  have dt: "distinct (map (map snd) rows_out)"
    unfolding ms unfolding difference_def by simp
  then have dd: "distinct rows_out" by (simp add: distinct_map)
  have se: "{row \<in> set total. excluded (map snd row)} =
       {row \<in> set (photometers_not_easy connection).
          map snd row \<notin> map snd ` set only_repaired \<and>
          map snd row \<notin> map snd ` set only_renamed}"
    unfolding total_def excluded_def by simp
  from res so dt dd se show ?thesis by (intro exI [of _ rows_out]) simp
qed

lemma previous_history_fuel:
  "previous_related_fuel k connection name tstamp [] 0 = Some (h, c, q) \<Longrightarrow>
   name_mac_previous_related_history connection tstamp name mac = Some (rev h, c)"
  by (simp add: name_mac_previous_related_history_def previous_fuel_loop)

lemma next_history_fuel:
  "next_related_fuel k connection name tstamp [] 0 = Some (h, c, q) \<Longrightarrow>
   name_mac_next_related_history connection tstamp name mac = Some (h, c)"
  by (simp add: name_mac_next_related_history_def next_fuel_loop)

theorem photometers_complicated_difference_witness:
  "photometers_not_easy
     [\<lparr>db_name = ''stars5'', db_mac_address = ''DD'', db_valid_since = ''2012'',
        db_valid_until = ''2999'', db_valid_state = ''Current''\<rparr>,
      \<lparr>db_name = ''stars1'', db_mac_address = ''AA'', db_valid_since = ''2019'',
        db_valid_until = ''2020'', db_valid_state = ''Expired''\<rparr>,
      \<lparr>db_name = ''stars5'', db_mac_address = ''CC'', db_valid_since = ''2010'',
        db_valid_until = ''2011'', db_valid_state = ''Expired''\<rparr>,
      \<lparr>db_name = ''stars1'', db_mac_address = ''BB'', db_valid_since = ''2020'',
        db_valid_until = ''2999'', db_valid_state = ''Current''\<rparr>] \<noteq> [] \<and>
   photometers_repaired
     [\<lparr>db_name = ''stars5'', db_mac_address = ''DD'', db_valid_since = ''2012'',
        db_valid_until = ''2999'', db_valid_state = ''Current''\<rparr>,
      \<lparr>db_name = ''stars1'', db_mac_address = ''AA'', db_valid_since = ''2019'',
        db_valid_until = ''2020'', db_valid_state = ''Expired''\<rparr>,
      \<lparr>db_name = ''stars5'', db_mac_address = ''CC'', db_valid_since = ''2010'',
        db_valid_until = ''2011'', db_valid_state = ''Expired''\<rparr>,
      \<lparr>db_name = ''stars1'', db_mac_address = ''BB'', db_valid_since = ''2020'',
        db_valid_until = ''2999'', db_valid_state = ''Current''\<rparr>] =
     Some (Inr [[(''name'', ''stars1''), (''mac'', ''AA''), (''valid_since'', ''2019''),
         (''valid_until'', ''2020''), (''valid_state'', ''Expired'')],
        [(''name'', ''stars1''), (''mac'', ''BB''), (''valid_since'', ''2020''),
         (''valid_until'', ''2999''), (''valid_state'', ''Current'')]]) \<and>
   photometers_renamed
     [\<lparr>db_name = ''stars5'', db_mac_address = ''DD'', db_valid_since = ''2012'',
        db_valid_until = ''2999'', db_valid_state = ''Current''\<rparr>,
      \<lparr>db_name = ''stars1'', db_mac_address = ''AA'', db_valid_since = ''2019'',
        db_valid_until = ''2020'', db_valid_state = ''Expired''\<rparr>,
      \<lparr>db_name = ''stars5'', db_mac_address = ''CC'', db_valid_since = ''2010'',
        db_valid_until = ''2011'', db_valid_state = ''Expired''\<rparr>,
      \<lparr>db_name = ''stars1'', db_mac_address = ''BB'', db_valid_since = ''2020'',
        db_valid_until = ''2999'', db_valid_state = ''Current''\<rparr>] = Some (Inr []) \<and>
   photometers_complicated
     [\<lparr>db_name = ''stars5'', db_mac_address = ''DD'', db_valid_since = ''2012'',
        db_valid_until = ''2999'', db_valid_state = ''Current''\<rparr>,
      \<lparr>db_name = ''stars1'', db_mac_address = ''AA'', db_valid_since = ''2019'',
        db_valid_until = ''2020'', db_valid_state = ''Expired''\<rparr>,
      \<lparr>db_name = ''stars5'', db_mac_address = ''CC'', db_valid_since = ''2010'',
        db_valid_until = ''2011'', db_valid_state = ''Expired''\<rparr>,
      \<lparr>db_name = ''stars1'', db_mac_address = ''BB'', db_valid_since = ''2020'',
        db_valid_until = ''2999'', db_valid_state = ''Current''\<rparr>] =
     Some (Inr [[(''name'', ''stars5''), (''mac'', ''CC''), (''valid_since'', ''2010''),
         (''valid_until'', ''2011''), (''valid_state'', ''Expired'')],
        [(''name'', ''stars5''), (''mac'', ''DD''), (''valid_since'', ''2012''),
         (''valid_until'', ''2999''), (''valid_state'', ''Current'')]])"
proof -
  let ?tbl = "[\<lparr>db_name = ''stars5'', db_mac_address = ''DD'', db_valid_since = ''2012'',
        db_valid_until = ''2999'', db_valid_state = ''Current''\<rparr>,
      \<lparr>db_name = ''stars1'', db_mac_address = ''AA'', db_valid_since = ''2019'',
        db_valid_until = ''2020'', db_valid_state = ''Expired''\<rparr>,
      \<lparr>db_name = ''stars5'', db_mac_address = ''CC'', db_valid_since = ''2010'',
        db_valid_until = ''2011'', db_valid_state = ''Expired''\<rparr>,
      \<lparr>db_name = ''stars1'', db_mac_address = ''BB'', db_valid_since = ''2020'',
        db_valid_until = ''2999'', db_valid_state = ''Current''\<rparr>]"
  let ?a = "[(''name'', ''stars1''), (''mac'', ''AA''), (''valid_since'', ''2019''),
         (''valid_until'', ''2020''), (''valid_state'', ''Expired'')]"
  let ?b = "[(''name'', ''stars1''), (''mac'', ''BB''), (''valid_since'', ''2020''),
         (''valid_until'', ''2999''), (''valid_state'', ''Current'')]"
  let ?c = "[(''name'', ''stars5''), (''mac'', ''CC''), (''valid_since'', ''2010''),
         (''valid_until'', ''2011''), (''valid_state'', ''Expired'')]"
  let ?d = "[(''name'', ''stars5''), (''mac'', ''DD''), (''valid_since'', ''2012''),
         (''valid_until'', ''2999''), (''valid_state'', ''Current'')]"
  have ne: "photometers_not_easy ?tbl = [?a, ?b, ?c, ?d]"
    by code_simp
  have c1: "name_mac_current_history ?tbl (Some ''stars1'') None =
      Inr ([\<lparr>item0 = ''stars1'', item1 = ''AA'', item2 = ''2019'', item3 = ''2020'',
          item4 = ''+'', item5 = ''Expired''\<rparr>, \<lparr>item0 = ''stars1'', item1 = ''BB'', item2 = ''2020'', item3 = ''2999'',
          item4 = ''+'', item5 = ''Current''\<rparr>], [], [], False)"
    by code_simp
  have c5: "name_mac_current_history ?tbl (Some ''stars5'') None =
      Inr ([\<lparr>item0 = ''stars5'', item1 = ''CC'', item2 = ''2010'', item3 = ''2011'',
          item4 = ''-'', item5 = ''Expired''\<rparr>, \<lparr>item0 = ''stars5'', item1 = ''DD'', item2 = ''2012'', item3 = ''2999'',
          item4 = ''+'', item5 = ''Current''\<rparr>], [''2011''], [''2012''], False)"
    by code_simp
  have ca: "name_mac_current_history ?tbl None (Some ''AA'') = Inr ([\<lparr>item0 = ''AA'', item1 = ''stars1'', item2 = ''2019'', item3 = ''2020'',
          item4 = ''+'', item5 = ''Expired''\<rparr>], [], [], True)"
    by code_simp
  have cb: "name_mac_current_history ?tbl None (Some ''BB'') = Inr ([\<lparr>item0 = ''BB'', item1 = ''stars1'', item2 = ''2020'', item3 = ''2999'',
          item4 = ''+'', item5 = ''Current''\<rparr>], [], [], False)"
    by code_simp
  have cc: "name_mac_current_history ?tbl None (Some ''CC'') = Inr ([\<lparr>item0 = ''CC'', item1 = ''stars5'', item2 = ''2010'', item3 = ''2011'',
          item4 = ''+'', item5 = ''Expired''\<rparr>], [], [], True)"
    by code_simp
  have cd: "name_mac_current_history ?tbl None (Some ''DD'') = Inr ([\<lparr>item0 = ''DD'', item1 = ''stars5'', item2 = ''2012'', item3 = ''2999'',
          item4 = ''+'', item5 = ''Current''\<rparr>], [], [], False)"
    by code_simp
  have p1: "name_mac_previous_related_history ?tbl ''2019'' (Some ''stars1'') mac = Some (rev [], False)" for mac
  proof -
    have "previous_related_fuel (Suc (Suc (Suc (Suc (Suc 0))))) ?tbl (Some ''stars1'') ''2019'' [] 0 = Some ([], False, 1)"
      by code_simp
    then show ?thesis by (rule previous_history_fuel)
  qed
  have p2: "name_mac_previous_related_history ?tbl ''2010'' (Some ''stars5'') mac = Some (rev [], False)" for mac
  proof -
    have "previous_related_fuel (Suc (Suc (Suc (Suc (Suc 0))))) ?tbl (Some ''stars5'') ''2010'' [] 0 = Some ([], False, 1)"
      by code_simp
    then show ?thesis by (rule previous_history_fuel)
  qed
  have p3: "name_mac_previous_related_history ?tbl ''2019'' None mac = Some (rev [], False)" for mac
  proof -
    have "previous_related_fuel (Suc (Suc (Suc (Suc (Suc 0))))) ?tbl None ''2019'' [] 0 = Some ([], False, 1)"
      by code_simp
    then show ?thesis by (rule previous_history_fuel)
  qed
  have p4: "name_mac_previous_related_history ?tbl ''2020'' None mac = Some (rev [\<lparr>item0 = ''AA'', item1 = ''stars1'', item2 = ''2019'', item3 = ''2020'',
          item4 = ''+'', item5 = ''Expired''\<rparr>], False)" for mac
  proof -
    have "previous_related_fuel (Suc (Suc (Suc (Suc (Suc 0))))) ?tbl None ''2020'' [] 0 = Some ([\<lparr>item0 = ''AA'', item1 = ''stars1'', item2 = ''2019'', item3 = ''2020'',
          item4 = ''+'', item5 = ''Expired''\<rparr>], False, 2)"
      by code_simp
    then show ?thesis by (rule previous_history_fuel)
  qed
  have p5: "name_mac_previous_related_history ?tbl ''2010'' None mac = Some (rev [], False)" for mac
  proof -
    have "previous_related_fuel (Suc (Suc (Suc (Suc (Suc 0))))) ?tbl None ''2010'' [] 0 = Some ([], False, 1)"
      by code_simp
    then show ?thesis by (rule previous_history_fuel)
  qed
  have p6: "name_mac_previous_related_history ?tbl ''2012'' None mac = Some (rev [], False)" for mac
  proof -
    have "previous_related_fuel (Suc (Suc (Suc (Suc (Suc 0))))) ?tbl None ''2012'' [] 0 = Some ([], False, 1)"
      by code_simp
    then show ?thesis by (rule previous_history_fuel)
  qed
  have n1: "name_mac_next_related_history ?tbl ''2999'' (Some ''stars1'') mac = Some ([], False)" for mac
  proof -
    have "next_related_fuel (Suc (Suc (Suc (Suc (Suc 0))))) ?tbl (Some ''stars1'') ''2999'' [] 0 = Some ([], False, 1)"
      by code_simp
    then show ?thesis by (rule next_history_fuel)
  qed
  have n2: "name_mac_next_related_history ?tbl ''2999'' (Some ''stars5'') mac = Some ([], False)" for mac
  proof -
    have "next_related_fuel (Suc (Suc (Suc (Suc (Suc 0))))) ?tbl (Some ''stars5'') ''2999'' [] 0 = Some ([], False, 1)"
      by code_simp
    then show ?thesis by (rule next_history_fuel)
  qed
  have n3: "name_mac_next_related_history ?tbl ''2020'' None mac = Some ([\<lparr>item0 = ''BB'', item1 = ''stars1'', item2 = ''2020'', item3 = ''2999'',
          item4 = ''+'', item5 = ''Current''\<rparr>], False)" for mac
  proof -
    have "next_related_fuel (Suc (Suc (Suc (Suc (Suc 0))))) ?tbl None ''2020'' [] 0 = Some ([\<lparr>item0 = ''BB'', item1 = ''stars1'', item2 = ''2020'', item3 = ''2999'',
          item4 = ''+'', item5 = ''Current''\<rparr>], False, 2)"
      by code_simp
    then show ?thesis by (rule next_history_fuel)
  qed
  have n4: "name_mac_next_related_history ?tbl ''2999'' None mac = Some ([], False)" for mac
  proof -
    have "next_related_fuel (Suc (Suc (Suc (Suc (Suc 0))))) ?tbl None ''2999'' [] 0 = Some ([], False, 1)"
      by code_simp
    then show ?thesis by (rule next_history_fuel)
  qed
  have n5: "name_mac_next_related_history ?tbl ''2011'' None mac = Some ([], False)" for mac
  proof -
    have "next_related_fuel (Suc (Suc (Suc (Suc (Suc 0))))) ?tbl None ''2011'' [] 0 = Some ([], False, 1)"
      by code_simp
    then show ?thesis by (rule next_history_fuel)
  qed
  have rep: "photometers_repaired ?tbl = Some (Inr [?a, ?b])"
    by (simp add: photometers_repaired_def ne getitem_def c1 c5 p1 p2 n1 n2)
  have ren: "photometers_renamed ?tbl = Some (Inr [])"
    by (simp add: photometers_renamed_def ne getitem_def ca cb cc cd p3 p4 p5 p6 n3 n4 n5)
  have nonempty: "photometers_not_easy ?tbl \<noteq> []" by (simp add: ne)
  from photometers_complicated_difference [OF nonempty rep ren] obtain rows where
    r: "photometers_complicated ?tbl = Some (Inr rows)" by blast
  have "photometers_complicated ?tbl = Some (Inr [?c, ?d])"
    by (simp add: photometers_complicated_def Let_def ne rep ren)
  with r nonempty rep ren show ?thesis by simp
qed

text \<open>
  When \<open>photometers_not_easy\<close> is empty, as for an empty table or one whose names and
  MAC addresses are all used once, \<open>total[0]\<close> raises IndexError. When a record has
  \<open>valid_since\<close> equal to \<open>valid_until\<close> and starts the history of a name with two
  records, \<open>photometers_repaired\<close> does not return, and so neither does
  \<open>photometers_complicated\<close>.
\<close>

theorem photometers_complicated_raises_or_runs_forever:
  "photometers_complicated [] = Some (Inl IndexError) \<and>
   photometers_complicated
     [\<lparr>db_name = ''stars9'', db_mac_address = ''UU'', db_valid_since = ''2015'',
        db_valid_until = ''2999'', db_valid_state = ''Current''\<rparr>] = Some (Inl IndexError) \<and>
   photometers_complicated
     [\<lparr>db_name = ''stars1'', db_mac_address = ''AA'', db_valid_since = ''2019'',
        db_valid_until = ''2019'', db_valid_state = ''Expired''\<rparr>,
      \<lparr>db_name = ''stars1'', db_mac_address = ''BB'', db_valid_since = ''2020'',
        db_valid_until = ''2999'', db_valid_state = ''Current''\<rparr>] = None"
proof -
  let ?tbl = "[\<lparr>db_name = ''stars1'', db_mac_address = ''AA'', db_valid_since = ''2019'',
        db_valid_until = ''2019'', db_valid_state = ''Expired''\<rparr>,
      \<lparr>db_name = ''stars1'', db_mac_address = ''BB'', db_valid_since = ''2020'',
        db_valid_until = ''2999'', db_valid_state = ''Current''\<rparr>]"
  have e1: "photometers_complicated [] = Some (Inl IndexError)"
    by (simp add: photometers_complicated_def photometers_not_easy_def photometers_repaired_def
          photometers_renamed_def)
  have "photometers_not_easy
     [\<lparr>db_name = ''stars9'', db_mac_address = ''UU'', db_valid_since = ''2015'',
        db_valid_until = ''2999'', db_valid_state = ''Current''\<rparr>] = []"
    by code_simp
  then have e2: "photometers_complicated
     [\<lparr>db_name = ''stars9'', db_mac_address = ''UU'', db_valid_since = ''2015'',
        db_valid_until = ''2999'', db_valid_state = ''Current''\<rparr>] = Some (Inl IndexError)"
    by (simp add: photometers_complicated_def photometers_repaired_def photometers_renamed_def)
  have ne: "photometers_not_easy ?tbl =
      [[(''name'', ''stars1''), (''mac'', ''AA''), (''valid_since'', ''2019''),
         (''valid_until'', ''2019''), (''valid_state'', ''Expired'')],
       [(''name'', ''stars1''), (''mac'', ''BB''), (''valid_since'', ''2020''),
         (''valid_until'', ''2999''), (''valid_state'', ''Current'')]]"
    by code_simp
  have c1: "name_mac_current_history ?tbl (Some ''stars1'') None =
      Inr ([\<lparr>item0 = ''stars1'', item1 = ''AA'', item2 = ''2019'', item3 = ''2019'',
          item4 = ''-'', item5 = ''Expired''\<rparr>, \<lparr>item0 = ''stars1'', item1 = ''BB'', item2 = ''2020'', item3 = ''2999'',
          item4 = ''+'', item5 = ''Current''\<rparr>], [''2019''], [''2020''], False)"
    by code_simp
  have q: "name_mac_previous_related_history_sql (Some ''stars1'') ''2019'' ?tbl = [\<lparr>item0 = ''stars1'', item1 = ''AA'', item2 = ''2019'', item3 = ''2019'',
          item4 = ''+'', item5 = ''Expired''\<rparr>]"
    by code_simp
  have "previous_related_loop ?tbl (Some ''stars1'') ''2019'' [] 0 = None"
    by (rule previous_loop_diverges [OF q]) simp
  then have p: "name_mac_previous_related_history ?tbl ''2019'' (Some ''stars1'') None = None"
    by (simp add: name_mac_previous_related_history_def)
  have "photometers_repaired ?tbl = None"
    by (simp add: photometers_repaired_def ne getitem_def c1 p)
  then have e3: "photometers_complicated ?tbl = None"
    by (simp add: photometers_complicated_def Let_def)
  from e1 e2 e3 show ?thesis by simp
qed

end
